theory Spec2Isabelle
  imports Main
begin

section \<open>JavaScript values\<close>

text \<open>
  The components keep their data in plain JavaScript objects whose properties hold
  whatever was last written to them: the TypeScript annotations are erased at run time,
  and \<open>handleChange\<close> writes strings into properties annotated \<open>number\<close>. A property of
  a book is therefore a tagged value: a string or a number as \<open>type Book\<close> declares, or
  one of the other primitive values. A number is a double that holds an integer
  (quantities, page numbers, what \<open>parseInt\<close> returns), \<open>NaN\<close> or an infinity;
  \<open>JNum n\<close> stands for the double nearest to \<open>n\<close>.
\<close>

datatype jsval =
    JUndefined
  | JNull
  | JBool bool
  | JNaN
  | JInfinity
  | JNegInfinity
  | JNum int
  | JStr string

text \<open>An object is the ordered list of its own properties (insertion order).\<close>

type_synonym jsobject = "(string \<times> jsval) list"

text \<open>\<open>ToBoolean\<close>: what \<open>v ? a : b\<close> and \<open>v || w\<close> test.\<close>

fun truthy :: "jsval \<Rightarrow> bool" where
  "truthy JUndefined = False"
| "truthy JNull = False"
| "truthy (JBool b) = b"
| "truthy JNaN = False"
| "truthy JInfinity = True"
| "truthy JNegInfinity = True"
| "truthy (JNum n) = (n \<noteq> 0)"
| "truthy (JStr s) = (s \<noteq> [])"

text \<open>\<open>a || b\<close>\<close>

definition js_or :: "jsval \<Rightarrow> jsval \<Rightarrow> jsval" where
  "js_or a b = (if truthy a then a else b)"

subsection \<open>Numbers\<close>

text \<open>The number of binary digits of a positive integer.\<close>

function binary_length :: "int \<Rightarrow> nat" where
  "binary_length n = (if n \<le> 0 then 0 else Suc (binary_length (n div 2)))"
  by pat_completeness auto
termination
  by (relation "measure nat") auto

declare binary_length.simps [simp del]

text \<open>
  The number value of an integer: the nearest double, ties going to the even
  significand, and an infinity from \<open>2^1024 - 2^970\<close> on. Integers below \<open>2^53\<close> in
  magnitude are doubles themselves.
\<close>

definition to_double :: "int \<Rightarrow> jsval" where
  "to_double x =
     (let a = \<bar>x\<bar>
      in if a < 2 ^ 53 then JNum x
         else (let k = binary_length a - 53;
                   q = a div 2 ^ k;
                   r = a mod 2 ^ k;
                   half = 2 ^ (k - 1);
                   q' = (if half < r \<or> (r = half \<and> odd q) then q + 1 else q);
                   m = q' * 2 ^ k
               in if 2 ^ 1024 \<le> m then (if x < 0 then JNegInfinity else JInfinity)
                  else JNum (if x < 0 then - m else m)))"

text \<open>The decimal digits of a non-negative integer.\<close>

definition digit_char :: "nat \<Rightarrow> char" where
  "digit_char d = ''0123456789'' ! d"

function decimal :: "int \<Rightarrow> string" where
  "decimal n =
     (if n < 10 then [digit_char (nat n)]
      else decimal (n div 10) @ [digit_char (nat (n mod 10))])"
  by pat_completeness auto
termination
  by (relation "measure nat") auto

declare decimal.simps [simp del]

text \<open>
  \<open>Number.prototype.toString\<close> on a double \<open>a > 0\<close> that holds an integer of \<open>n\<close>
  decimal digits. The language prints the shortest run of digits \<open>s\<close> that, followed by
  zeros up to the number's magnitude, still reads back as the same double, and among
  such runs of one length the one nearest to the number. \<open>shortest_digits a n k\<close> tries
  the lengths from \<open>k\<close> on: the first \<open>k\<close> digits of \<open>a\<close> and their successor. It
  returns the digits and the number of digits before the decimal point.
\<close>

definition round_trips :: "int \<Rightarrow> int \<Rightarrow> bool" where
  "round_trips a v = (to_double v = JNum a)"

function shortest_digits :: "int \<Rightarrow> nat \<Rightarrow> nat \<Rightarrow> int \<times> nat" where
  "shortest_digits a n k =
     (if n \<le> k then (a, n)
      else (let p = 10 ^ (n - k);
                lo = a div p;
                hi = lo + 1;
                ok_lo = round_trips a (lo * p);
                ok_hi = round_trips a (hi * p)
            in if ok_lo \<and> (\<not> ok_hi \<or> a - lo * p < hi * p - a
                          \<or> (a - lo * p = hi * p - a \<and> even lo))
               then (lo, n)
               else if ok_hi then (if hi = 10 ^ k then (1, n + 1) else (hi, n))
               else shortest_digits a n (Suc k)))"
  by pat_completeness auto
termination
  by (relation "measure (\<lambda>(a, n, k). n - k)") auto

declare shortest_digits.simps [simp del]

text \<open>
  The digits are followed by zeros while the number has at most 21 digits before the
  point; from \<open>10^21\<close> on the exponent notation is used.
\<close>

definition format_digits :: "int \<Rightarrow> nat \<Rightarrow> string" where
  "format_digits s n =
     (let ds = decimal s; k = length ds
      in if n \<le> 21 then ds @ replicate (n - k) CHR ''0''
         else if k = 1 then ds @ ''e+'' @ decimal (int (n - 1))
         else hd ds # CHR ''.'' # tl ds @ ''e+'' @ decimal (int (n - 1)))"

definition number_toString :: "int \<Rightarrow> string" where
  "number_toString x =
     (case to_double x of
        JInfinity \<Rightarrow> ''Infinity''
      | JNegInfinity \<Rightarrow> ''-Infinity''
      | JNum m \<Rightarrow>
          if m = 0 then ''0''
          else (let a = \<bar>m\<bar>;
                    (s, n) = shortest_digits a (length (decimal a)) 1
                in (if m < 0 then ''-'' else '''') @ format_digits s n)
      | _ \<Rightarrow> ''NaN'')"

text \<open>
  The string form of a value, as \<open>v.toString()\<close> and template literals produce it.
  The components call \<open>toString\<close> only behind a truthiness test, so never on
  \<open>null\<close> or \<open>undefined\<close> (where the method call would throw); for those two the
  function gives what a template literal prints.
\<close>

fun toString :: "jsval \<Rightarrow> string" where
  "toString JUndefined = ''undefined''"
| "toString JNull = ''null''"
| "toString (JBool b) = (if b then ''true'' else ''false'')"
| "toString JNaN = ''NaN''"
| "toString JInfinity = ''Infinity''"
| "toString JNegInfinity = ''-Infinity''"
| "toString (JNum n) = number_toString n"
| "toString (JStr s) = s"

subsection \<open>\<open>parseInt\<close>\<close>

text \<open>
  Strings are byte strings (UTF-8). \<open>parseInt\<close> first skips leading white space and line
  terminators: the ASCII ones, and the Unicode ones, which are two or three bytes long.
\<close>

definition unicode_spaces :: "string list" where
  "unicode_spaces =
     [[CHR 0xE1, CHR 0x9A, CHR 0x80],
      [CHR 0xE2, CHR 0x80, CHR 0x80], [CHR 0xE2, CHR 0x80, CHR 0x81],
      [CHR 0xE2, CHR 0x80, CHR 0x82], [CHR 0xE2, CHR 0x80, CHR 0x83],
      [CHR 0xE2, CHR 0x80, CHR 0x84], [CHR 0xE2, CHR 0x80, CHR 0x85],
      [CHR 0xE2, CHR 0x80, CHR 0x86], [CHR 0xE2, CHR 0x80, CHR 0x87],
      [CHR 0xE2, CHR 0x80, CHR 0x88], [CHR 0xE2, CHR 0x80, CHR 0x89],
      [CHR 0xE2, CHR 0x80, CHR 0x8A], [CHR 0xE2, CHR 0x80, CHR 0xA8],
      [CHR 0xE2, CHR 0x80, CHR 0xA9], [CHR 0xE2, CHR 0x80, CHR 0xAF],
      [CHR 0xE2, CHR 0x81, CHR 0x9F], [CHR 0xE3, CHR 0x80, CHR 0x80],
      [CHR 0xEF, CHR 0xBB, CHR 0xBF]]"

text \<open>The number of bytes of the white-space character a string starts with, 0 if none.\<close>

definition white_space_length :: "string \<Rightarrow> nat" where
  "white_space_length s =
     (case s of
        [] \<Rightarrow> 0
      | c # _ \<Rightarrow>
          if (9 \<le> (of_char c :: nat) \<and> (of_char c :: nat) \<le> 13) \<or> c = CHR '' '' then 1
          else if take 2 s = [CHR 0xC2, CHR 0xA0] then 2
          else if take 3 s \<in> set unicode_spaces then 3
          else 0)"

lemma white_space_length_Nil: "0 < white_space_length s \<Longrightarrow> 0 < length s"
  by (cases s) (auto simp: white_space_length_def)

function trimStart :: "string \<Rightarrow> string" where
  "trimStart s =
     (if white_space_length s = 0 then s else trimStart (drop (white_space_length s) s))"
  by pat_completeness auto
termination
  by (relation "measure length") (auto dest: white_space_length_Nil intro: diff_less)

declare trimStart.simps [simp del]

text \<open>The value of a character as a digit, letters counting from ten.\<close>

definition digit_value :: "char \<Rightarrow> nat option" where
  "digit_value c =
     (let n = (of_char c :: nat)
      in if 48 \<le> n \<and> n \<le> 57 then Some (n - 48)
         else if 97 \<le> n \<and> n \<le> 122 then Some (n - 87)
         else if 65 \<le> n \<and> n \<le> 90 then Some (n - 55)
         else None)"

definition radix_digit :: "nat \<Rightarrow> char \<Rightarrow> bool" where
  "radix_digit R c = (case digit_value c of Some d \<Rightarrow> d < R | None \<Rightarrow> False)"

definition radix_value :: "nat \<Rightarrow> string \<Rightarrow> int" where
  "radix_value R Z =
     foldl (\<lambda>acc c. acc * int R + (case digit_value c of Some d \<Rightarrow> int d | None \<Rightarrow> 0)) 0 Z"

text \<open>
  \<open>parseInt(string)\<close> with no radix argument, step by step as the language defines it:
  trim, take the sign, take a \<open>0x\<close> prefix as radix 16, read the longest run of digits;
  \<open>NaN\<close> when there is none, and otherwise the number value of the signed integer the
  digits denote. (\<open>-0\<close> is \<open>0\<close> here: both are falsy and print as \<open>0\<close>. For more than
  20 decimal digits the language lets an engine round the digits first; this is the
  engine that does not.)
\<close>

definition parseInt :: "string \<Rightarrow> jsval" where
  "parseInt inputString =
     (let S = trimStart inputString;
          sign = (if S \<noteq> [] \<and> hd S = CHR ''-'' then - 1 else 1 :: int);
          S1 = (if S \<noteq> [] \<and> (hd S = CHR ''+'' \<or> hd S = CHR ''-'') then tl S else S);
          hex = (take 2 S1 = ''0x'' \<or> take 2 S1 = ''0X'');
          R = (if hex then 16 else 10);
          S2 = (if hex then drop 2 S1 else S1);
          Z = takeWhile (radix_digit R) S2
      in if Z = [] then JNaN else to_double (sign * radix_value R Z))"

section \<open>The book form (modal): data\<close>

text \<open>
  \<open>type Book\<close>: the form's record. At run time it is an object, and the form writes
  into it by property name, so it is kept as one.
\<close>

type_synonym Book = jsobject

definition initialBookState :: Book where
  "initialBookState =
     [(''id'', JStr ''''), (''title'', JStr ''''), (''author'', JStr ''''),
      (''publisher'', JStr ''''), (''publishDt'', JStr ''''), (''bookDetails'', JStr ''''),
      (''thumbSeq'', JStr ''''), (''booksAmount'', JNum 0), (''sellAmount'', JNum 0)]"

text \<open>\<open>obj.key\<close>: \<open>undefined\<close> for a property the object does not have.\<close>

definition get_prop :: "string \<Rightarrow> jsobject \<Rightarrow> jsval" where
  "get_prop key obj = (case map_of obj key of Some v \<Rightarrow> v | None \<Rightarrow> JUndefined)"

text \<open>
  \<open>{...obj, [key]: v}\<close>: a property the object has keeps its place and takes the new
  value; a new property goes last. (Property names that are array indices are ordered
  differently; the form has none.)
\<close>

fun set_prop :: "string \<Rightarrow> jsval \<Rightarrow> jsobject \<Rightarrow> jsobject" where
  "set_prop key v [] = [(key, v)]"
| "set_prop key v ((k, w) # ps) =
     (if k = key then (key, v) # ps else (k, w) # set_prop key v ps)"

text \<open>
  \<open>handleChange\<close>: the function it passes to \<open>setBookData\<close>, for a change event of the
  input called \<open>name\<close> whose text is \<open>value\<close>.
\<close>

definition handleChange :: "string \<Rightarrow> string \<Rightarrow> Book \<Rightarrow> Book" where
  "handleChange name value prev =
     set_prop name
       (if name = ''booksAmount'' \<or> name = ''selAmount''
        then js_or (parseInt value) (JNum 0)
        else JStr value)
       prev"

subsection \<open>The multipart payload\<close>

datatype jsfile = File (name: string)

datatype formdata_value = Text string | Blob jsfile

type_synonym FormData = "(string \<times> formdata_value) list"

text \<open>\<open>formData.append(key, value)\<close>\<close>

definition formdata_append :: "FormData \<Rightarrow> string \<Rightarrow> formdata_value \<Rightarrow> FormData" where
  "formdata_append fd key v = fd @ [(key, v)]"

text \<open>
  The payload \<open>handleSubmit\<close> builds: \<open>Object.entries(bookData).forEach\<close> appends one
  text entry per property, then the chosen file is appended when there is one.
\<close>

definition submit_formData :: "Book \<Rightarrow> jsfile option \<Rightarrow> FormData" where
  "submit_formData bookData thumbnail =
     (let formData =
            foldl (\<lambda>fd (key, value).
                     formdata_append fd key (Text (if truthy value then toString value else '''')))
              [] bookData
      in case thumbnail of
           Some file \<Rightarrow> formdata_append formData ''thumbnail'' (Blob file)
         | None \<Rightarrow> formData)"

section \<open>The list component: page window\<close>

text \<open>\<open>type BooksResponse\<close>, the body of a list response.\<close>

record BooksResponse =
  list :: "jsobject list"
  responseMessage :: string
  totalPages :: int
  responseCode :: int

text \<open>
  The \<open>for (let i = start; i <= end; i++) range.push(i)\<close> loop of
  \<open>getPaginationRange\<close>, with the array built so far as an accumulator.
\<close>

function range_loop :: "int \<Rightarrow> int \<Rightarrow> int list \<Rightarrow> int list" where
  "range_loop i end range' =
     (if i \<le> end then range_loop (i + 1) end (range' @ [i]) else range')"
  by pat_completeness auto
termination
  by (relation "measure (\<lambda>(i, end, range'). nat (end + 1 - i))") auto

declare range_loop.simps [simp del]

text \<open>
  \<open>getPaginationRange\<close> reads \<open>data\<close> and \<open>page\<close> from the component state; they are
  its arguments here. \<open>data\<close> is \<open>null\<close> until the first list response arrives.
\<close>

definition getPaginationRange :: "BooksResponse option \<Rightarrow> int \<Rightarrow> int list" where
  "getPaginationRange data page =
     (case data of
        None \<Rightarrow> []
      | Some d \<Rightarrow>
          (let maxVisiblePages = 10;
               start = max (page - 5) 1;
               end = min (page + 4) (totalPages d)
           in if end - start + 1 < maxVisiblePages
              then (if start = 1
                    then range_loop start (min (start + maxVisiblePages - 1) (totalPages d)) []
                    else range_loop (max (end - maxVisiblePages + 1) 1) end [])
              else range_loop start end []))"

text \<open>
  The window as the specification words it: tentative start and end, one adjustment
  when the span is narrower than ten, then every integer from start to end.
\<close>

definition computeVisibleWindow_spec :: "int \<Rightarrow> int \<Rightarrow> int list" where
  "computeVisibleWindow_spec page total' =
     (let start0 = max (page - 5) 1;
          end0 = min (page + 4) total';
          (start1, end1) =
            (if end0 - start0 + 1 < 10
             then (if start0 = 1 then (start0, min (start0 + 9) total')
                   else (max (end0 - 9) 1, end0))
             else (start0, end0))
      in [start1..end1])"

text \<open>A run of integers in which each element is its predecessor plus one.\<close>

fun contiguous :: "int list \<Rightarrow> bool" where
  "contiguous (x # y # zs) = (y = x + 1 \<and> contiguous (y # zs))"
| "contiguous _ = True"

section \<open>Requests, responses and thrown values\<close>

datatype http_method = GET | POST | PUT | DELETE

text \<open>
  What a call \<open>fetch(url, {method, headers, body})\<close> sends (the field \<open>method\<close> is
  \<open>method'\<close> here).
\<close>

record request =
  method' :: http_method
  url :: string
  headers :: "(string \<times> string) list"
  body :: "FormData option"

text \<open>
  A thrown value: an \<open>Error\<close> object with its message, or something that is not an
  \<open>Error\<close>. A promise settles by rejecting with a thrown value or by resolving.
\<close>

datatype thrown = Error string | NotAnError

datatype 'a settled = Rejected thrown | Resolved 'a

text \<open>
  A response as the components read it: its \<open>ok\<close> flag, and what \<open>res.json()\<close>
  settles to (it rejects when the body is not JSON).
\<close>

record 'a response =
  ok :: bool
  json :: "'a settled"

definition json_headers :: "(string \<times> string) list" where
  "json_headers =
     [(''Content-Type'', ''application/json''), (''Access-Control-Allow-Origin'', ''*'')]"

section \<open>Response bodies\<close>

text \<open>
  The body of a save response that is not ok is read as \<open>errorData\<close> with no type
  declared for it, so it is any JSON value: \<open>null\<close>, a boolean, a number (an integer one
  here), a string, an array, or an object given by its own properties.
\<close>

datatype json =
    JsonNull
  | JsonBool bool
  | JsonNumber int
  | JsonString string
  | JsonArray "json list"
  | JsonObject "(string \<times> json) list"

text \<open>
  The two \<open>TypeError\<close>s the engine can throw while such a value is read: a property of
  \<open>null\<close> is read, or an object cannot be converted to a string. Their messages are the
  engine's own wording, which differs between engines: \<open>engine\<close> gives it.
\<close>

datatype type_error = PropertyOfNull string | NotPrimitive

type_synonym engine = "type_error \<Rightarrow> string"

fun json_truthy :: "json \<Rightarrow> bool" where
  "json_truthy JsonNull = False"
| "json_truthy (JsonBool b) = b"
| "json_truthy (JsonNumber n) = (n \<noteq> 0)"
| "json_truthy (JsonString s) = (s \<noteq> [])"
| "json_truthy (JsonArray xs) = True"
| "json_truthy (JsonObject ps) = True"

text \<open>
  \<open>ToString\<close> of a JSON value, as \<open>new Error(value)\<close> applies it. An array is its
  elements joined by commas, \<open>null\<close> elements counting as empty. A parsed object has no
  methods of its own: it prints as \<open>[object Object]\<close> through the inherited
  \<open>toString\<close>, unless it has an own property of that name, which hides the inherited
  method and makes the conversion throw.
\<close>

fun json_toString :: "engine \<Rightarrow> json \<Rightarrow> thrown + string"
  and json_join :: "engine \<Rightarrow> json list \<Rightarrow> thrown + string" where
  "json_toString g JsonNull = Inr ''null''"
| "json_toString g (JsonBool b) = Inr (if b then ''true'' else ''false'')"
| "json_toString g (JsonNumber n) = Inr (number_toString n)"
| "json_toString g (JsonString s) = Inr s"
| "json_toString g (JsonArray xs) = json_join g xs"
| "json_toString g (JsonObject ps) =
     (if ''toString'' \<in> set (map fst ps) then Inl (Error (g NotPrimitive))
      else Inr ''[object Object]'')"
| "json_join g [] = Inr ''''"
| "json_join g (x # xs) =
     (case (if x = JsonNull then Inr '''' else json_toString g x) of
        Inl e \<Rightarrow> Inl e
      | Inr s \<Rightarrow>
          if xs = [] then Inr s
          else (case json_join g xs of
                  Inl e \<Rightarrow> Inl e
                | Inr t \<Rightarrow> Inr (s @ '','' @ t)))"

text \<open>
  \<open>value.key\<close> for a name that strings, numbers, booleans and arrays do not have (the
  components read \<open>message\<close>): \<open>None\<close> is \<open>undefined\<close>. Reading a property of \<open>null\<close>
  throws.
\<close>

fun json_member :: "engine \<Rightarrow> string \<Rightarrow> json \<Rightarrow> thrown + json option" where
  "json_member g key JsonNull = Inl (Error (g (PropertyOfNull key)))"
| "json_member g key (JsonObject ps) = Inr (map_of ps key)"
| "json_member g key v = Inr None"


section \<open>The list component: state, refresh and save\<close>

text \<open>
  The state of \<open>BooksClient\<close>: its seven state variables, and, to make its effects
  observable, the calls it has made to \<open>fetch\<close> and to \<open>console.error\<close>, oldest first.
\<close>

record BooksClient =
  searchKeyword :: string
  data :: "BooksResponse option"
  loading :: bool
  page :: int
  viewCnt :: int
  isModalOpen :: bool
  selectedBook :: string
  fetched :: "request list"
  console :: "(string \<times> thrown) list"

text \<open>The state \<open>BooksClient\<close> starts in: the initial values of its \<open>useState\<close> calls.\<close>

definition BooksClient_initial :: BooksClient where
  "BooksClient_initial =
     \<lparr>searchKeyword = '''', data = None, loading = False, page = 1, viewCnt = 10,
      isModalOpen = False, selectedBook = '''', fetched = [], console = []\<rparr>"

text \<open>\<open>handleAddBook\<close> and \<open>handleEditBook\<close> open the form, for a new book or for a listed one.\<close>

definition handleAddBook :: "BooksClient \<Rightarrow> BooksClient" where
  "handleAddBook c = c\<lparr>selectedBook := '''', isModalOpen := True\<rparr>"

definition handleEditBook :: "string \<Rightarrow> BooksClient \<Rightarrow> BooksClient" where
  "handleEditBook bookId c = c\<lparr>selectedBook := bookId, isModalOpen := True\<rparr>"

text \<open>
  The props \<open>bookId={selectedBook}\<close> and \<open>isOpen={isModalOpen}\<close> that a render of
  \<open>BooksClient\<close> passes to the form: the dependencies of the form's effect.
\<close>

definition BookModal_props :: "BooksClient \<Rightarrow> string option \<times> bool" where
  "BookModal_props c = (Some (selectedBook c), isModalOpen c)"

text \<open>
  The list request of \<open>getBooks\<close>. \<open>api\<close> stands for
  \<open>process.env.NEXT_PUBLIC_API_URL\<close> as the template literal prints it.
\<close>

definition getBooks_request :: "string \<Rightarrow> BooksClient \<Rightarrow> request" where
  "getBooks_request api c =
     \<lparr>method' = GET,
      url = api @ ''/books?page='' @ number_toString (page c)
              @ ''&viewCnt='' @ number_toString (viewCnt c)
              @ ''&searchKeyword='' @ searchKeyword c,
      headers = json_headers,
      body = None\<rparr>"

text \<open>
  The \<open>try\<close> block of \<open>getBooks\<close>, given how the request turns out: the state it
  leaves, and the value it throws, if any.
\<close>

definition getBooks_try ::
  "string \<Rightarrow> BooksResponse response settled \<Rightarrow> BooksClient \<Rightarrow> thrown option \<times> BooksClient" where
  "getBooks_try api outcome c =
     (let c1 = c\<lparr>loading := True\<rparr>;
          c2 = c1\<lparr>fetched := fetched c1 @ [getBooks_request api c]\<rparr>
      in case outcome of
           Rejected e \<Rightarrow> (Some e, c2)
         | Resolved res \<Rightarrow>
             if \<not> ok res then (Some (Error ''Failed to fetch books''), c2)
             else (case json res of
                     Rejected e \<Rightarrow> (Some e, c2)
                   | Resolved result \<Rightarrow> (None, c2\<lparr>data := Some result\<rparr>)))"

text \<open>\<open>getBooks\<close>: the \<open>try\<close> block, the \<open>catch\<close> that logs, the \<open>finally\<close>.\<close>

definition getBooks ::
  "string \<Rightarrow> BooksResponse response settled \<Rightarrow> BooksClient \<Rightarrow> BooksClient" where
  "getBooks api outcome c =
     (case getBooks_try api outcome c of
        (Some err, c1) \<Rightarrow>
          c1\<lparr>console := console c1 @ [(''Error fetching books:'', err)], loading := False\<rparr>
      | (None, c1) \<Rightarrow> c1\<lparr>loading := False\<rparr>)"

text \<open>The two generic messages, as the UTF-8 bytes of the source's string literals.\<close>

definition save_failed_message :: string where
  "save_failed_message =
     [CHR 0xEC, CHR 0xA0, CHR 0x80, CHR 0xEC, CHR 0x9E, CHR 0xA5, CHR 0xEC, CHR 0x97,
      CHR 0x90, CHR 0x20, CHR 0xEC, CHR 0x8B, CHR 0xA4, CHR 0xED, CHR 0x8C, CHR 0xA8,
      CHR 0xED, CHR 0x96, CHR 0x88, CHR 0xEC, CHR 0x8A, CHR 0xB5, CHR 0xEB, CHR 0x8B,
      CHR 0x88, CHR 0xEB, CHR 0x8B, CHR 0xA4, CHR 0x2E]"


text \<open>The request \<open>handleSaveBook\<close> sends for a book and its payload.\<close>

definition handleSaveBook_request :: "string \<Rightarrow> Book \<Rightarrow> FormData \<Rightarrow> request" where
  "handleSaveBook_request api book formData =
     \<lparr>method' = (if truthy (get_prop ''id'' book) then PUT else POST),
      url = api @ ''/books''
              @ (if truthy (get_prop ''id'' book) then ''/'' @ toString (get_prop ''id'' book)
                 else ''''),
      headers = [],
      body = Some formData\<rparr>"

text \<open>
  \<open>ToString(message || fallback)\<close>, the message \<open>new Error(errorData.message || ...)\<close>
  gets: the string form of the message when it is truthy, the generic message
  otherwise.
\<close>

definition message_or :: "engine \<Rightarrow> json option \<Rightarrow> string \<Rightarrow> thrown + string" where
  "message_or g message fallback =
     (case message of
        Some v \<Rightarrow> if json_truthy v then json_toString g v else Inr fallback
      | None \<Rightarrow> Inr fallback)"

text \<open>
  What \<open>throw new Error(errorData.message || "...")\<close> throws for a parsed body: the new
  \<open>Error\<close>, unless reading the message or converting it to a string throws first.
\<close>

definition save_error :: "engine \<Rightarrow> json \<Rightarrow> thrown" where
  "save_error g errorData =
     (case json_member g ''message'' errorData of
        Inl e \<Rightarrow> e
      | Inr message \<Rightarrow>
          (case message_or g message save_failed_message of
             Inl e \<Rightarrow> e
           | Inr msg \<Rightarrow> Error msg))"

text \<open>
  The \<open>try\<close> block of \<open>handleSaveBook\<close>. \<open>save\<close> is how the save request turns out
  (the body of a response that is not ok is \<open>errorData\<close>); \<open>refresh\<close> is how the list
  request that \<open>getBooks()\<close> then sends turns out. \<open>getBooks()\<close> is not awaited and
  catches what it throws, so it never makes the save fail.
\<close>

definition handleSaveBook_try ::
  "string \<Rightarrow> engine \<Rightarrow> json response settled \<Rightarrow> BooksResponse response settled
     \<Rightarrow> Book \<Rightarrow> FormData \<Rightarrow> BooksClient \<Rightarrow> thrown option \<times> BooksClient" where
  "handleSaveBook_try api g save refresh book formData c =
     (let c1 = c\<lparr>fetched := fetched c @ [handleSaveBook_request api book formData]\<rparr>
      in case save of
           Rejected e \<Rightarrow> (Some e, c1)
         | Resolved res \<Rightarrow>
             if \<not> ok res
             then (case json res of
                     Rejected e \<Rightarrow> (Some e, c1)
                   | Resolved errorData \<Rightarrow> (Some (save_error g errorData), c1))
             else (None, getBooks api refresh c1))"

text \<open>\<open>handleSaveBook\<close>: the \<open>catch\<close> logs what was thrown and throws it again.\<close>

definition handleSaveBook ::
  "string \<Rightarrow> engine \<Rightarrow> json response settled \<Rightarrow> BooksResponse response settled
     \<Rightarrow> Book \<Rightarrow> FormData \<Rightarrow> BooksClient \<Rightarrow> thrown option \<times> BooksClient" where
  "handleSaveBook api g save refresh book formData c =
     (case handleSaveBook_try api g save refresh book formData c of
        (Some err, c1) \<Rightarrow>
          (Some err, c1\<lparr>console := console c1 @ [(''Error saving book:'', err)]\<rparr>)
      | (None, c1) \<Rightarrow> (None, c1))"

section \<open>The book form (modal): state and handlers\<close>

text \<open>The four state variables of \<open>BookModal\<close> (its \<open>loading\<close> is \<open>loading'\<close> here).\<close>

record BookModal =
  bookData :: Book
  loading' :: bool
  error :: string
  thumbnail :: "jsfile option"

text \<open>The state \<open>BookModal\<close> starts in.\<close>

definition BookModal_initial :: BookModal where
  "BookModal_initial =
     \<lparr>bookData = initialBookState, loading' = False, error = '''', thumbnail = None\<rparr>"



subsection \<open>Opening the form\<close>

text \<open>
  What the form's effect does is kept as the sequence of calls it makes, in order: the
  state setters, \<open>fetch\<close> and \<open>console.error\<close>.
\<close>

datatype modal_call =
    SetBookData Book
  | SetLoading bool
  | SetError string
  | SetThumbnail "jsfile option"
  | Fetch request
  | ConsoleError string thrown

fun modal_call_apply :: "BookModal \<Rightarrow> modal_call \<Rightarrow> BookModal" where
  "modal_call_apply m (SetBookData b) = m\<lparr>bookData := b\<rparr>"
| "modal_call_apply m (SetLoading l) = m\<lparr>loading' := l\<rparr>"
| "modal_call_apply m (SetError e) = m\<lparr>error := e\<rparr>"
| "modal_call_apply m (SetThumbnail t) = m\<lparr>thumbnail := t\<rparr>"
| "modal_call_apply m (Fetch r) = m"
| "modal_call_apply m (ConsoleError l e) = m"

definition run_calls :: "BookModal \<Rightarrow> modal_call list \<Rightarrow> BookModal" where
  "run_calls m calls = foldl modal_call_apply m calls"

text \<open>
  \<open>getBookDetail\<close>, given how the detail request turns out; a body that parses is
  given by its \<open>obj\<close> property.
\<close>

definition getBookDetail :: "string \<Rightarrow> string \<Rightarrow> Book response settled \<Rightarrow> modal_call list" where
  "getBookDetail api bookId outcome =
     [SetLoading True,
      Fetch \<lparr>method' = GET, url = api @ ''/books/'' @ bookId, headers = json_headers,
             body = None\<rparr>]
     @ (case outcome of
          Rejected e \<Rightarrow> [ConsoleError ''Error fetching books:'' e]
        | Resolved res \<Rightarrow>
            if \<not> ok res
            then [ConsoleError ''Error fetching books:'' (Error ''Failed to fetch books'')]
            else (case json res of
                    Rejected e \<Rightarrow> [ConsoleError ''Error fetching books:'' e]
                  | Resolved obj \<Rightarrow> [SetBookData obj]))
     @ [SetLoading False]"

text \<open>
  The body of the form's \<open>useEffect\<close>. The prop \<open>bookId\<close> is optional; it is truthy when
  it is a string that is not empty.
\<close>

definition useEffect_body ::
  "string \<Rightarrow> string option \<Rightarrow> Book response settled \<Rightarrow> modal_call list" where
  "useEffect_body api bookId outcome =
     SetThumbnail None
     # (case bookId of
          Some i \<Rightarrow> if i \<noteq> [] then getBookDetail api i outcome
                    else [SetBookData initialBookState]
        | None \<Rightarrow> [SetBookData initialBookState])"

text \<open>
  \<open>useEffect(..., [bookId, isOpen])\<close>: after a render the body runs when the component
  has just mounted (no previous dependencies) or a dependency differs from the
  previous render's.
\<close>

definition useEffect ::
  "string \<Rightarrow> (string option \<times> bool) option \<Rightarrow> string option \<Rightarrow> bool
     \<Rightarrow> Book response settled \<Rightarrow> modal_call list" where
  "useEffect api previous bookId isOpen outcome =
     (if previous = Some (bookId, isOpen) then [] else useEffect_body api bookId outcome)"

text \<open>Whether a call sets the pending thumbnail.\<close>

fun sets_thumbnail :: "modal_call \<Rightarrow> bool" where
  "sets_thumbnail (SetThumbnail t) = True"
| "sets_thumbnail _ = False"

section \<open>Page window: proofs\<close>

lemma range_loop_upto: "range_loop i e acc = acc @ [i..e]"
proof (induction i e acc rule: range_loop.induct)
  case (1 i e acc)
  show ?case
  proof (cases "i \<le> e")
    case True
    then have "range_loop i e acc = range_loop (i + 1) e (acc @ [i])"
      by (subst range_loop.simps) simp
    also have "\<dots> = (acc @ [i]) @ [i + 1..e]"
      using True "1.IH" by simp
    also have "\<dots> = acc @ [i..e]"
      using True by (simp add: upto_rec1)
    finally show ?thesis .
  next
    case False
    then show ?thesis
      by (subst range_loop.simps) simp
  qed
qed

lemma getPaginationRange_bounds:
  fixes page :: int
  shows "\<exists>s e. getPaginationRange (Some d) page = [s..e] \<and> 1 \<le> s \<and> e \<le> totalPages d \<and> e - s \<le> 9"
proof -
  define start0 where "start0 = max (page - 5) 1"
  define end0 where "end0 = min (page + 4) (totalPages d)"
  define s where
    "s = (if end0 - start0 + 1 < 10 \<and> start0 \<noteq> 1 then max (end0 - 10 + 1) 1 else start0)"
  define e where
    "e = (if end0 - start0 + 1 < 10 \<and> start0 = 1
          then min (start0 + 10 - 1) (totalPages d) else end0)"
  have "getPaginationRange (Some d) page = [s..e]"
    by (simp add: getPaginationRange_def range_loop_upto Let_def s_def e_def start0_def end0_def)
  moreover have "1 \<le> s"
    by (simp add: s_def start0_def)
  moreover have "e \<le> totalPages d"
    by (simp add: e_def end0_def)
  moreover have "e - s \<le> 9"
    unfolding s_def e_def start0_def end0_def by (simp split: if_splits) linarith
  ultimately show ?thesis by blast
qed

lemma contiguous_upto: "contiguous [i..j]"
proof (induction i j rule: upto.induct)
  case (1 i j)
  show ?case
  proof (cases "i + 1 \<le> j")
    case True
    then have "[i..j] = i # (i + 1) # [i + 1 + 1..j]"
      by (simp add: upto_rec1)
    moreover have "contiguous [i + 1..j]"
      using True "1.IH" by simp
    moreover have "[i + 1..j] = (i + 1) # [i + 1 + 1..j]"
      using True by (simp add: upto_rec1)
    ultimately show ?thesis by simp
  next
    case False
    then have "[i..j] = [] \<or> [i..j] = [i]"
      by (cases "i \<le> j") (simp_all add: upto_rec1)
    then show ?thesis by auto
  qed
qed

lemma ascending_upto: "sorted_wrt (<) [i..j]"
  by (simp add: strict_sorted_iff)

text \<open>
  C1. For every page \<open>\<ge> 1\<close> and every total page count \<open>\<ge> 0\<close>, the page window the
  component computes is the sequence the specification's algorithm describes: start
  \<open>max (page - 5) 1\<close>, end \<open>min (page + 4) total\<close>, one widening step when fewer than ten
  pages fit, then all integers from start to end (none when start exceeds end).
\<close>

theorem getPaginationRange_refines_spec:
  fixes page :: int
  assumes "1 \<le> page" and "0 \<le> totalPages d"
  shows "getPaginationRange (Some d) page = computeVisibleWindow_spec page (totalPages d)"
  by (simp add: getPaginationRange_def computeVisibleWindow_spec_def range_loop_upto Let_def
      split: if_splits)

theorem getPaginationRange_refines_spec_witness:
  "(1::int) \<le> 7 \<and> (0::int) \<le> 20 \<and>
   getPaginationRange
     (Some \<lparr>list = [], responseMessage = [], totalPages = 20, responseCode = 200\<rparr>) 7
   = computeVisibleWindow_spec 7 20"
  using getPaginationRange_refines_spec
    [of 7 "\<lparr>list = [], responseMessage = [], totalPages = 20, responseCode = 200\<rparr>"]
  by simp

text \<open>
  C2. For every page \<open>\<ge> 1\<close> and every total page count \<open>\<ge> 0\<close>, the page window is
  a contiguous, strictly ascending run of at most ten integers, each between 1 and the
  total page count; with a total of 0 it is empty.
\<close>

theorem getPaginationRange_window:
  fixes page :: int
  assumes "1 \<le> page" and "0 \<le> totalPages d"
  shows "contiguous (getPaginationRange (Some d) page)
       \<and> sorted_wrt (<) (getPaginationRange (Some d) page)
       \<and> length (getPaginationRange (Some d) page) \<le> 10
       \<and> (\<forall>x \<in> set (getPaginationRange (Some d) page). 1 \<le> x \<and> x \<le> totalPages d)
       \<and> (totalPages d = 0 \<longrightarrow> getPaginationRange (Some d) page = [])"
proof -
  obtain s e where r: "getPaginationRange (Some d) page = [s..e]"
    and s: "1 \<le> s" and e: "e \<le> totalPages d" and w: "e - s \<le> 9"
    using getPaginationRange_bounds by blast
  have "length [s..e] \<le> 10"
    using w by simp
  moreover have "\<forall>x \<in> set [s..e]. 1 \<le> x \<and> x \<le> totalPages d"
    using s e by auto
  moreover have "totalPages d = 0 \<longrightarrow> [s..e] = []"
    using s e by simp
  ultimately show ?thesis
    unfolding r using contiguous_upto [of s e] ascending_upto [of s e] by blast
qed

theorem getPaginationRange_window_witness:
  "(1::int) \<le> 7 \<and> (0::int) \<le> 20
   \<and> 11 \<in> set (getPaginationRange
        (Some \<lparr>list = [], responseMessage = [], totalPages = 20, responseCode = 200\<rparr>) 7)
   \<and> (1::int) \<le> 11 \<and> (11::int) \<le> 20
   \<and> length (getPaginationRange
        (Some \<lparr>list = [], responseMessage = [], totalPages = 20, responseCode = 200\<rparr>) 7) \<le> 10
   \<and> (1::int) \<le> 1 \<and> (0::int) \<le> 0
   \<and> getPaginationRange
        (Some \<lparr>list = [], responseMessage = [], totalPages = 0, responseCode = 200\<rparr>) 1 = []"
proof -
  have member: "11 \<in> set (getPaginationRange
        (Some \<lparr>list = [], responseMessage = [], totalPages = 20, responseCode = 200\<rparr>) 7)"
    by (simp add: getPaginationRange_def range_loop_upto)
  have short: "length (getPaginationRange
        (Some \<lparr>list = [], responseMessage = [], totalPages = 20, responseCode = 200\<rparr>) 7) \<le> 10"
    using getPaginationRange_window
      [of 7 "\<lparr>list = [], responseMessage = [], totalPages = 20, responseCode = 200\<rparr>"]
    by simp
  have none: "getPaginationRange
        (Some \<lparr>list = [], responseMessage = [], totalPages = 0, responseCode = 200\<rparr>) 1 = []"
    using getPaginationRange_window
      [of 1 "\<lparr>list = [], responseMessage = [], totalPages = 0, responseCode = 200\<rparr>"]
    by simp
  show ?thesis
    using member short none by simp
qed

text \<open>
  C3, as the specification gives it, fails at its second example: for page 7 of 20 the
  window is not 3 to 12.
\<close>

theorem getPaginationRange_page7_counterexample:
  "getPaginationRange
     (Some \<lparr>list = [], responseMessage = [], totalPages = 20, responseCode = 200\<rparr>) 7
   \<noteq> [3, 4, 5, 6, 7, 8, 9, 10, 11, 12]"
  by (simp add: getPaginationRange_def range_loop_upto upto_rec1)

text \<open>
  C3, amended. The page window is 1, 2, 3 for page 1 of 3; it is 2 to 11 for page 7 of 20
  (start \<open>7 - 5\<close>, end \<open>7 + 4\<close>, already ten wide); and it is empty for a total of 0,
  whatever the page.
\<close>

theorem getPaginationRange_examples:
  fixes page :: int
  shows "getPaginationRange (Some (d\<lparr>totalPages := 3\<rparr>)) 1 = [1, 2, 3]
   \<and> getPaginationRange (Some (d\<lparr>totalPages := 20\<rparr>)) 7 = [2, 3, 4, 5, 6, 7, 8, 9, 10, 11]
   \<and> getPaginationRange (Some (d\<lparr>totalPages := 0\<rparr>)) page = []"
proof -
  have "getPaginationRange (Some (d\<lparr>totalPages := 3\<rparr>)) 1 = [1, 2, 3]"
    by (simp add: getPaginationRange_def range_loop_upto upto_rec1)
  moreover
  have "getPaginationRange (Some (d\<lparr>totalPages := 20\<rparr>)) 7 = [2, 3, 4, 5, 6, 7, 8, 9, 10, 11]"
    by (simp add: getPaginationRange_def range_loop_upto upto_rec1)
  moreover
  have "getPaginationRange (Some (d\<lparr>totalPages := 0\<rparr>)) page = []"
    by (simp add: getPaginationRange_def range_loop_upto Let_def)
  ultimately show ?thesis by blast
qed

section \<open>Numbers read and printed\<close>

lemma to_double_exact: "\<bar>x\<bar> < 2 ^ 53 \<Longrightarrow> to_double x = JNum x"
  by (simp add: to_double_def)

lemma to_double_cases:
  "to_double x = JInfinity \<or> to_double x = JNegInfinity \<or> (\<exists>n. to_double x = JNum n)"
  by (simp add: to_double_def Let_def)

lemma parseInt_cases:
  "parseInt v = JNaN \<or> parseInt v = JInfinity \<or> parseInt v = JNegInfinity
   \<or> (\<exists>n. parseInt v = JNum n)"
  using to_double_cases by (auto simp: parseInt_def Let_def)

lemma digit_char_code: "d < 10 \<Longrightarrow> (of_char (digit_char d) :: nat) = 48 + d"
proof -
  assume "d < 10"
  then have "d \<in> {0, 1, 2, 3, 4, 5, 6, 7, 8, 9}"
    by auto
  then show ?thesis
    by (auto simp: digit_char_def)
qed

lemma digit_value_digit_char: "d < 10 \<Longrightarrow> digit_value (digit_char d) = Some d"
  by (simp add: digit_value_def digit_char_code)

lemma radix_digit_10:
  "radix_digit 10 c = (48 \<le> (of_char c :: nat) \<and> (of_char c :: nat) \<le> 57)"
  by (auto simp: radix_digit_def digit_value_def Let_def)

lemma decimal_not_Nil: "decimal n \<noteq> []"
  by (subst decimal.simps) simp

lemma decimal_digits: "0 \<le> n \<Longrightarrow> \<forall>c \<in> set (decimal n). radix_digit 10 c"
proof (induction n rule: decimal.induct)
  case (1 n)
  show ?case
  proof (cases "n < 10")
    case True
    with "1.prems" have "nat n < 10"
      by simp
    then have "radix_digit 10 (digit_char (nat n))"
      by (simp add: radix_digit_def digit_value_digit_char)
    with True show ?thesis
      by (subst decimal.simps) simp
  next
    case False
    with "1.prems" have "nat (n mod 10) < 10"
      by simp
    then have last: "radix_digit 10 (digit_char (nat (n mod 10)))"
      by (simp add: radix_digit_def digit_value_digit_char)
    from False "1.prems" have "\<forall>c \<in> set (decimal (n div 10)). radix_digit 10 c"
      by (intro "1.IH") simp_all
    with False last show ?thesis
      by (subst decimal.simps) simp
  qed
qed

lemma radix_value_snoc:
  "radix_value R (Z @ [c])
     = radix_value R Z * int R + (case digit_value c of Some d \<Rightarrow> int d | None \<Rightarrow> 0)"
  by (simp add: radix_value_def)

lemma radix_value_decimal: "0 \<le> n \<Longrightarrow> radix_value 10 (decimal n) = n"
proof (induction n rule: decimal.induct)
  case (1 n)
  show ?case
  proof (cases "n < 10")
    case True
    with "1.prems" have "nat n < 10"
      by simp
    then have "radix_value 10 [digit_char (nat n)] = int (nat n)"
      by (simp add: radix_value_def digit_value_digit_char)
    with True "1.prems" show ?thesis
      by (subst decimal.simps) simp
  next
    case False
    with "1.prems" have small: "nat (n mod 10) < 10"
      by simp
    from False "1.prems" have "radix_value 10 (decimal (n div 10)) = n div 10"
      by (intro "1.IH") simp_all
    then have "radix_value 10 (decimal (n div 10) @ [digit_char (nat (n mod 10))])
        = n div 10 * 10 + n mod 10"
      using small by (simp add: radix_value_snoc digit_value_digit_char)
    with False show ?thesis
      by (subst decimal.simps) simp
  qed
qed

lemma white_space_length_printable:
  assumes "33 \<le> (of_char c :: nat)" and "(of_char c :: nat) \<le> 126"
  shows "white_space_length (c # s) = 0"
proof -
  have a: "\<not> ((9 \<le> (of_char c :: nat) \<and> (of_char c :: nat) \<le> 13) \<or> c = CHR 0x20)"
    using assms(1) by auto
  have b: "take 2 (c # s) \<noteq> [CHR 0xC2, CHR 0xA0]"
    using assms(2) by auto
  have high: "\<forall>u \<in> set unicode_spaces. 127 \<le> (of_char (hd u) :: nat)"
    by (simp add: unicode_spaces_def)
  have d: "take 3 (c # s) \<notin> set unicode_spaces"
  proof
    assume "take 3 (c # s) \<in> set unicode_spaces"
    with high have "127 \<le> (of_char (hd (take 3 (c # s))) :: nat)"
      by (rule bspec)
    then have "127 \<le> (of_char c :: nat)"
      by simp
    with assms(2) show False
      by simp
  qed
  show ?thesis
    using a b d by (simp add: white_space_length_def)
qed

lemma trimStart_none: "white_space_length s = 0 \<Longrightarrow> trimStart s = s"
  by (subst trimStart.simps) simp

lemma trimStart_space:
  "c \<in> set [CHR 0x09, CHR 0x0A, CHR 0x0B, CHR 0x0C, CHR 0x0D, CHR 0x20] \<Longrightarrow>
   trimStart (c # s) = trimStart s"
proof -
  assume "c \<in> set [CHR 0x09, CHR 0x0A, CHR 0x0B, CHR 0x0C, CHR 0x0D, CHR 0x20]"
  then have "white_space_length (c # s) = 1"
    by (auto simp: white_space_length_def)
  then show ?thesis
    by (subst trimStart.simps) simp
qed

lemma trimStart_spaces:
  "set ws \<subseteq> set [CHR 0x09, CHR 0x0A, CHR 0x0B, CHR 0x0C, CHR 0x0D, CHR 0x20] \<Longrightarrow>
   trimStart (ws @ s) = trimStart s"
proof (induction ws)
  case Nil
  then show ?case by simp
next
  case (Cons c ws)
  then have "c \<in> set [CHR 0x09, CHR 0x0A, CHR 0x0B, CHR 0x0C, CHR 0x0D, CHR 0x20]"
    and "trimStart (ws @ s) = trimStart s"
    by simp_all
  then show ?case
    using trimStart_space [of c "ws @ s"] by simp
qed

lemma digit_not_sign:
  assumes "radix_digit 10 c"
  shows "c \<noteq> CHR ''-''" and "c \<noteq> CHR ''+''" and "c \<noteq> CHR ''x''" and "c \<noteq> CHR ''X''"
  using assms by (auto simp: radix_digit_10)

lemma digits_not_hex:
  assumes "ds \<noteq> []" and "\<forall>c \<in> set ds. radix_digit 10 c"
    and "rest = [] \<or> (hd rest \<noteq> CHR ''x'' \<and> hd rest \<noteq> CHR ''X'')"
  shows "take 2 (ds @ rest) \<noteq> ''0x'' \<and> take 2 (ds @ rest) \<noteq> ''0X''"
proof (cases ds)
  case Nil
  with assms(1) show ?thesis by simp
next
  case (Cons d ds')
  show ?thesis
  proof (cases ds')
    case Nil
    with Cons assms(3) show ?thesis
      by (cases rest) auto
  next
    case (Cons d' ds'')
    with \<open>ds = d # ds'\<close> assms(2) have "radix_digit 10 d'"
      by simp
    then have "d' \<noteq> CHR ''x''" and "d' \<noteq> CHR ''X''"
      by (rule digit_not_sign)+
    with Cons \<open>ds = d # ds'\<close> show ?thesis
      by simp
  qed
qed

lemma takeWhile_digits:
  assumes "\<forall>c \<in> set ds. P c" and "rest = [] \<or> \<not> P (hd rest)"
  shows "takeWhile P (ds @ rest) = ds"
proof -
  have "takeWhile P rest = []"
    using assms(2) by (cases rest) auto
  with assms(1) show ?thesis
    by (simp add: takeWhile_append2)
qed

lemma parseInt_unsigned:
  assumes trimmed: "trimStart v = ds @ rest"
    and ds: "ds \<noteq> []" "\<forall>c \<in> set ds. radix_digit 10 c"
    and rest: "rest = [] \<or> (\<not> radix_digit 10 (hd rest) \<and> hd rest \<noteq> CHR ''x'' \<and> hd rest \<noteq> CHR ''X'')"
  shows "parseInt v = to_double (radix_value 10 ds)"
proof -
  from ds have "radix_digit 10 (hd ds)"
    by simp
  then have unsigned: "hd ds \<noteq> CHR ''-''" "hd ds \<noteq> CHR ''+''"
    by (rule digit_not_sign)+
  from rest have "rest = [] \<or> (hd rest \<noteq> CHR ''x'' \<and> hd rest \<noteq> CHR ''X'')"
    by blast
  with ds have decimal: "take 2 (ds @ rest) \<noteq> ''0x'' \<and> take 2 (ds @ rest) \<noteq> ''0X''"
    by (rule digits_not_hex)
  from rest have "rest = [] \<or> \<not> radix_digit 10 (hd rest)"
    by blast
  with ds(2) have run: "takeWhile (radix_digit 10) (ds @ rest) = ds"
    by (rule takeWhile_digits)
  show ?thesis
    using ds(1) unsigned decimal run by (simp add: parseInt_def trimmed Let_def)
qed

lemma parseInt_signed:
  assumes trimmed: "trimStart v = sign_char # ds @ rest"
    and sign_char: "sign_char = CHR ''+'' \<or> sign_char = CHR ''-''"
    and ds: "ds \<noteq> []" "\<forall>c \<in> set ds. radix_digit 10 c"
    and rest: "rest = [] \<or> (\<not> radix_digit 10 (hd rest) \<and> hd rest \<noteq> CHR ''x'' \<and> hd rest \<noteq> CHR ''X'')"
  shows "parseInt v = to_double ((if sign_char = CHR ''-'' then - 1 else 1) * radix_value 10 ds)"
proof -
  from rest have "rest = [] \<or> (hd rest \<noteq> CHR ''x'' \<and> hd rest \<noteq> CHR ''X'')"
    by blast
  with ds have decimal: "take 2 (ds @ rest) \<noteq> ''0x'' \<and> take 2 (ds @ rest) \<noteq> ''0X''"
    by (rule digits_not_hex)
  from rest have "rest = [] \<or> \<not> radix_digit 10 (hd rest)"
    by blast
  with ds(2) have run: "takeWhile (radix_digit 10) (ds @ rest) = ds"
    by (rule takeWhile_digits)
  show ?thesis
    using ds(1) sign_char decimal run by (auto simp: parseInt_def trimmed Let_def)
qed

lemma parseInt_no_digits:
  assumes trimmed: "trimStart v = S"
    and S1: "S1 = (if S \<noteq> [] \<and> (hd S = CHR ''+'' \<or> hd S = CHR ''-'') then tl S else S)"
    and none: "S1 = [] \<or> \<not> radix_digit 10 (hd S1)"
  shows "parseInt v = JNaN"
proof -
  have zero: "radix_digit 10 CHR ''0''"
    by (simp add: radix_digit_10)
  have "take 2 S1 \<noteq> ''0x'' \<and> take 2 S1 \<noteq> ''0X''"
    using none zero by (cases S1) auto
  moreover have "takeWhile (radix_digit 10) S1 = []"
    using none by (cases S1) auto
  ultimately show ?thesis
    unfolding parseInt_def trimmed Let_def S1 [symmetric] by simp
qed

lemma binary_length_between:
  "2 ^ j \<le> n \<Longrightarrow> n < 2 ^ Suc j \<Longrightarrow> binary_length n = Suc j"
proof (induction j arbitrary: n)
  case 0
  then have "n = 1"
    by simp
  then have "binary_length n = Suc (binary_length 0)"
    by (subst binary_length.simps) simp
  also have "binary_length 0 = 0"
    by (subst binary_length.simps) simp
  finally show ?case .
next
  case (Suc j)
  then have "2 * 2 ^ j \<le> n" and "n < 2 * 2 ^ Suc j"
    by simp_all
  then have "2 ^ j \<le> n div 2" and "n div 2 < 2 ^ Suc j" and "0 < n"
    by (simp_all add: order.strict_trans2 [of 0 "2 * 2 ^ j"])
  then have "binary_length (n div 2) = Suc j" and "0 < n"
    by (simp_all add: Suc.IH)
  then show ?case
    by (subst binary_length.simps) simp
qed

lemma to_double_rounds: "to_double 9007199254740993 = JNum 9007199254740992"
proof -
  have "binary_length 9007199254740993 = Suc 53"
    by (rule binary_length_between) simp_all
  then show ?thesis
    by (simp add: to_double_def)
qed

lemma js_or_to_double: "js_or (to_double x) (JNum 0) = to_double x"
  using to_double_cases [of x] by (auto simp: js_or_def)

lemma js_or_parseInt:
  "js_or (parseInt v) (JNum 0) = (if parseInt v = JNaN then JNum 0 else parseInt v)"
  using parseInt_cases [of v] by (auto simp: js_or_def)

lemma to_double_overflows: "to_double (2 ^ 1024) = JInfinity"
proof -
  have "binary_length (2 ^ 1024) = Suc 1024"
    by (rule binary_length_between) simp_all
  then show ?thesis
    by (simp add: to_double_def)
qed

section \<open>The book form: field updates\<close>

lemma get_prop_set_prop_same: "get_prop key (set_prop key v obj) = v"
  by (induction obj) (auto simp: get_prop_def)

lemma get_prop_set_prop_other:
  "k \<noteq> key \<Longrightarrow> get_prop k (set_prop key v obj) = get_prop k obj"
  by (induction obj) (auto simp: get_prop_def)

lemma booksAmount_stored:
  "get_prop ''booksAmount'' (handleChange ''booksAmount'' v prev)
     = (if parseInt v = JNaN then JNum 0 else parseInt v)"
  by (simp add: handleChange_def get_prop_set_prop_same js_or_parseInt)

lemma booksAmount_number_read:
  assumes "parseInt v = to_double x"
  shows "get_prop ''booksAmount'' (handleChange ''booksAmount'' v prev) = to_double x"
  using to_double_cases [of x] by (auto simp: booksAmount_stored assms)

lemma booksAmount_nothing_read:
  assumes "parseInt v = JNaN"
  shows "get_prop ''booksAmount'' (handleChange ''booksAmount'' v prev) = JNum 0"
  by (simp add: booksAmount_stored assms)

lemma trimStart_spaces_printable:
  assumes "set ws \<subseteq> set [CHR 0x09, CHR 0x0A, CHR 0x0B, CHR 0x0C, CHR 0x0D, CHR 0x20]"
    and "s = [] \<or> (33 \<le> (of_char (hd s) :: nat) \<and> (of_char (hd s) :: nat) \<le> 126)"
  shows "trimStart (ws @ s) = s"
proof -
  have "white_space_length s = 0"
  proof (cases s)
    case Nil
    then show ?thesis
      by (simp add: white_space_length_def)
  next
    case (Cons c s')
    with assms(2) show ?thesis
      by (simp add: white_space_length_printable)
  qed
  then have "trimStart s = s"
    by (rule trimStart_none)
  with assms(1) show ?thesis
    by (simp add: trimStart_spaces)
qed

lemma digit_printable:
  "radix_digit 10 c \<Longrightarrow> 33 \<le> (of_char c :: nat) \<and> (of_char c :: nat) \<le> 126"
  by (simp add: radix_digit_10)

lemma parseInt_decimal:
  assumes "0 \<le> n"
    and "set ws \<subseteq> set [CHR 0x09, CHR 0x0A, CHR 0x0B, CHR 0x0C, CHR 0x0D, CHR 0x20]"
    and "rest = [] \<or> (\<not> radix_digit 10 (hd rest) \<and> hd rest \<noteq> CHR ''x'' \<and> hd rest \<noteq> CHR ''X'')"
  shows "parseInt (ws @ decimal n @ rest) = to_double n"
    and "parseInt (ws @ CHR ''+'' # decimal n @ rest) = to_double n"
    and "parseInt (ws @ CHR ''-'' # decimal n @ rest) = to_double (- n)"
proof -
  note digits = decimal_digits [OF assms(1)]
  from digits decimal_not_Nil [of n] have "radix_digit 10 (hd (decimal n @ rest))"
    by simp
  then have "33 \<le> (of_char (hd (decimal n @ rest)) :: nat)
      \<and> (of_char (hd (decimal n @ rest)) :: nat) \<le> 126"
    by (rule digit_printable)
  with assms(2) have "trimStart (ws @ decimal n @ rest) = decimal n @ rest"
    by (intro trimStart_spaces_printable) simp_all
  from parseInt_unsigned [OF this decimal_not_Nil digits assms(3)]
  show "parseInt (ws @ decimal n @ rest) = to_double n"
    by (simp add: radix_value_decimal assms(1))
  from assms(2) have "trimStart (ws @ CHR ''+'' # decimal n @ rest) = CHR ''+'' # decimal n @ rest"
    by (intro trimStart_spaces_printable) simp_all
  from parseInt_signed [OF this _ decimal_not_Nil digits assms(3)]
  show "parseInt (ws @ CHR ''+'' # decimal n @ rest) = to_double n"
    by (simp add: radix_value_decimal assms(1))
  from assms(2) have "trimStart (ws @ CHR ''-'' # decimal n @ rest) = CHR ''-'' # decimal n @ rest"
    by (intro trimStart_spaces_printable) simp_all
  from parseInt_signed [OF this _ decimal_not_Nil digits assms(3)]
  show "parseInt (ws @ CHR ''-'' # decimal n @ rest) = to_double (- n)"
    by (simp add: radix_value_decimal assms(1))
qed

lemma parseInt_sign_only:
  assumes "set ws \<subseteq> set [CHR 0x09, CHR 0x0A, CHR 0x0B, CHR 0x0C, CHR 0x0D, CHR 0x20]"
    and "rest = [] \<or> \<not> radix_digit 10 (hd rest)"
  shows "parseInt (ws @ CHR ''+'' # rest) = JNaN"
    and "parseInt (ws @ CHR ''-'' # rest) = JNaN"
proof -
  from assms(1) have "trimStart (ws @ CHR ''+'' # rest) = CHR ''+'' # rest"
    by (intro trimStart_spaces_printable) simp_all
  then show "parseInt (ws @ CHR ''+'' # rest) = JNaN"
    by (rule parseInt_no_digits [where ?S1.0 = rest]) (simp_all add: assms(2))
  from assms(1) have "trimStart (ws @ CHR ''-'' # rest) = CHR ''-'' # rest"
    by (intro trimStart_spaces_printable) simp_all
  then show "parseInt (ws @ CHR ''-'' # rest) = JNaN"
    by (rule parseInt_no_digits [where ?S1.0 = rest]) (simp_all add: assms(2))
qed

lemma parseInt_not_a_number:
  assumes "set ws \<subseteq> set [CHR 0x09, CHR 0x0A, CHR 0x0B, CHR 0x0C, CHR 0x0D, CHR 0x20]"
    and "rest = [] \<or> (33 \<le> (of_char (hd rest) :: nat) \<and> (of_char (hd rest) :: nat) \<le> 126
           \<and> \<not> radix_digit 10 (hd rest) \<and> hd rest \<noteq> CHR ''+'' \<and> hd rest \<noteq> CHR ''-'')"
  shows "parseInt (ws @ rest) = JNaN"
proof -
  from assms have "trimStart (ws @ rest) = rest"
    by (intro trimStart_spaces_printable) auto
  moreover have "rest = (if rest \<noteq> [] \<and> (hd rest = CHR ''+'' \<or> hd rest = CHR ''-'')
      then tl rest else rest)"
    using assms(2) by auto
  moreover have "rest = [] \<or> \<not> radix_digit 10 (hd rest)"
    using assms(2) by auto
  ultimately show ?thesis
    by (rule parseInt_no_digits)
qed

lemma parseInt_12: "parseInt ''12'' = JNum 12"
  by code_simp

lemma parseInt_abc: "parseInt ''abc'' = JNaN"
  by code_simp

lemma parseInt_hex: "parseInt ''0x1F'' = JNum 31"
  by code_simp

text \<open>
  C7. A change of the quantity-on-hand input (\<open>booksAmount\<close>) stores the integer that
  \<open>parseInt\<close> reads from the text, and 0 when it reads none; what is stored is always a
  number. The integer read is pinned down: for every decimal numeral, after any ASCII
  white space, with or without a sign and whatever follows the digits, it is the number
  value of that numeral (the numeral itself below \<open>2^53\<close>, the nearest double above,
  an infinity beyond the doubles); text with no digit where the number should start
  stores 0. So "12" stores 12, "abc" stores 0 and "0x1F" stores 31. A change of any
  other field of the book stores the text as it is. Every property other than the one
  named keeps its value.
\<close>

theorem handleChange_stores:
  fixes n :: int
  shows "get_prop ''booksAmount'' (handleChange ''booksAmount'' v prev)
           = (if parseInt v = JNaN then JNum 0 else parseInt v)
       \<and> ((\<exists>m. get_prop ''booksAmount'' (handleChange ''booksAmount'' v prev) = JNum m)
            \<or> get_prop ''booksAmount'' (handleChange ''booksAmount'' v prev) = JInfinity
            \<or> get_prop ''booksAmount'' (handleChange ''booksAmount'' v prev) = JNegInfinity)
       \<and> (0 \<le> n
            \<and> set ws \<subseteq> set [CHR 0x09, CHR 0x0A, CHR 0x0B, CHR 0x0C, CHR 0x0D, CHR 0x20]
            \<and> (rest = [] \<or> (\<not> radix_digit 10 (hd rest) \<and> hd rest \<noteq> CHR ''x''
                               \<and> hd rest \<noteq> CHR ''X'')) \<longrightarrow>
              get_prop ''booksAmount''
                (handleChange ''booksAmount'' (ws @ decimal n @ rest) prev) = to_double n
            \<and> get_prop ''booksAmount''
                (handleChange ''booksAmount'' (ws @ CHR ''+'' # decimal n @ rest) prev)
                = to_double n
            \<and> get_prop ''booksAmount''
                (handleChange ''booksAmount'' (ws @ CHR ''-'' # decimal n @ rest) prev)
                = to_double (- n))
       \<and> (\<bar>n\<bar> < 2 ^ 53 \<longrightarrow> to_double n = JNum n)
       \<and> to_double 9007199254740993 = JNum 9007199254740992
       \<and> to_double (2 ^ 1024) = JInfinity
       \<and> (set ws \<subseteq> set [CHR 0x09, CHR 0x0A, CHR 0x0B, CHR 0x0C, CHR 0x0D, CHR 0x20]
            \<and> (rest = [] \<or> \<not> radix_digit 10 (hd rest)) \<longrightarrow>
              get_prop ''booksAmount''
                (handleChange ''booksAmount'' (ws @ CHR ''+'' # rest) prev) = JNum 0
            \<and> get_prop ''booksAmount''
                (handleChange ''booksAmount'' (ws @ CHR ''-'' # rest) prev) = JNum 0)
       \<and> (set ws \<subseteq> set [CHR 0x09, CHR 0x0A, CHR 0x0B, CHR 0x0C, CHR 0x0D, CHR 0x20]
            \<and> (rest = [] \<or> (33 \<le> (of_char (hd rest) :: nat) \<and> (of_char (hd rest) :: nat) \<le> 126
                  \<and> \<not> radix_digit 10 (hd rest) \<and> hd rest \<noteq> CHR ''+''
                  \<and> hd rest \<noteq> CHR ''-'')) \<longrightarrow>
              get_prop ''booksAmount'' (handleChange ''booksAmount'' (ws @ rest) prev) = JNum 0)
       \<and> get_prop ''booksAmount'' (handleChange ''booksAmount'' ''12'' prev) = JNum 12
       \<and> get_prop ''booksAmount'' (handleChange ''booksAmount'' ''abc'' prev) = JNum 0
       \<and> get_prop ''booksAmount'' (handleChange ''booksAmount'' ''0x1F'' prev) = JNum 31
       \<and> (\<forall>k \<in> set (map fst initialBookState).
             k \<noteq> ''booksAmount'' \<longrightarrow> get_prop k (handleChange k v prev) = JStr v)
       \<and> (\<forall>k k'. k' \<noteq> k \<longrightarrow> get_prop k' (handleChange k v prev) = get_prop k' prev)"
proof -
  have number: "(\<exists>m. get_prop ''booksAmount'' (handleChange ''booksAmount'' v prev) = JNum m)
      \<or> get_prop ''booksAmount'' (handleChange ''booksAmount'' v prev) = JInfinity
      \<or> get_prop ''booksAmount'' (handleChange ''booksAmount'' v prev) = JNegInfinity"
    using parseInt_cases [of v] by (auto simp: booksAmount_stored)
  have numeral: "0 \<le> n
      \<and> set ws \<subseteq> set [CHR 0x09, CHR 0x0A, CHR 0x0B, CHR 0x0C, CHR 0x0D, CHR 0x20]
      \<and> (rest = [] \<or> (\<not> radix_digit 10 (hd rest) \<and> hd rest \<noteq> CHR ''x''
                         \<and> hd rest \<noteq> CHR ''X'')) \<longrightarrow>
        get_prop ''booksAmount''
          (handleChange ''booksAmount'' (ws @ decimal n @ rest) prev) = to_double n
      \<and> get_prop ''booksAmount''
          (handleChange ''booksAmount'' (ws @ CHR ''+'' # decimal n @ rest) prev)
          = to_double n
      \<and> get_prop ''booksAmount''
          (handleChange ''booksAmount'' (ws @ CHR ''-'' # decimal n @ rest) prev)
          = to_double (- n)"
  proof (intro impI, elim conjE, intro conjI)
    assume a: "0 \<le> n"
      "set ws \<subseteq> set [CHR 0x09, CHR 0x0A, CHR 0x0B, CHR 0x0C, CHR 0x0D, CHR 0x20]"
      "rest = [] \<or> (\<not> radix_digit 10 (hd rest) \<and> hd rest \<noteq> CHR ''x''
         \<and> hd rest \<noteq> CHR ''X'')"
    show "get_prop ''booksAmount''
        (handleChange ''booksAmount'' (ws @ decimal n @ rest) prev) = to_double n"
      by (rule booksAmount_number_read) (rule parseInt_decimal [OF a])
    show "get_prop ''booksAmount''
        (handleChange ''booksAmount'' (ws @ CHR ''+'' # decimal n @ rest) prev) = to_double n"
      by (rule booksAmount_number_read) (rule parseInt_decimal [OF a])
    show "get_prop ''booksAmount''
        (handleChange ''booksAmount'' (ws @ CHR ''-'' # decimal n @ rest) prev)
        = to_double (- n)"
      by (rule booksAmount_number_read) (rule parseInt_decimal [OF a])
  qed
  have exact: "\<bar>n\<bar> < 2 ^ 53 \<longrightarrow> to_double n = JNum n"
    by (simp add: to_double_exact)
  have sign_only:
    "set ws \<subseteq> set [CHR 0x09, CHR 0x0A, CHR 0x0B, CHR 0x0C, CHR 0x0D, CHR 0x20]
      \<and> (rest = [] \<or> \<not> radix_digit 10 (hd rest)) \<longrightarrow>
        get_prop ''booksAmount''
          (handleChange ''booksAmount'' (ws @ CHR ''+'' # rest) prev) = JNum 0
      \<and> get_prop ''booksAmount''
          (handleChange ''booksAmount'' (ws @ CHR ''-'' # rest) prev) = JNum 0"
  proof (intro impI, elim conjE, intro conjI)
    assume a: "set ws \<subseteq> set [CHR 0x09, CHR 0x0A, CHR 0x0B, CHR 0x0C, CHR 0x0D, CHR 0x20]"
      "rest = [] \<or> \<not> radix_digit 10 (hd rest)"
    show "get_prop ''booksAmount''
        (handleChange ''booksAmount'' (ws @ CHR ''+'' # rest) prev) = JNum 0"
      by (rule booksAmount_nothing_read) (rule parseInt_sign_only [OF a])
    show "get_prop ''booksAmount''
        (handleChange ''booksAmount'' (ws @ CHR ''-'' # rest) prev) = JNum 0"
      by (rule booksAmount_nothing_read) (rule parseInt_sign_only [OF a])
  qed
  have no_digit:
    "set ws \<subseteq> set [CHR 0x09, CHR 0x0A, CHR 0x0B, CHR 0x0C, CHR 0x0D, CHR 0x20]
      \<and> (rest = [] \<or> (33 \<le> (of_char (hd rest) :: nat) \<and> (of_char (hd rest) :: nat) \<le> 126
            \<and> \<not> radix_digit 10 (hd rest) \<and> hd rest \<noteq> CHR ''+''
            \<and> hd rest \<noteq> CHR ''-'')) \<longrightarrow>
        get_prop ''booksAmount'' (handleChange ''booksAmount'' (ws @ rest) prev) = JNum 0"
  proof (intro impI, elim conjE)
    assume a: "set ws \<subseteq> set [CHR 0x09, CHR 0x0A, CHR 0x0B, CHR 0x0C, CHR 0x0D, CHR 0x20]"
      "rest = [] \<or> (33 \<le> (of_char (hd rest) :: nat) \<and> (of_char (hd rest) :: nat) \<le> 126
         \<and> \<not> radix_digit 10 (hd rest) \<and> hd rest \<noteq> CHR ''+'' \<and> hd rest \<noteq> CHR ''-'')"
    show "get_prop ''booksAmount'' (handleChange ''booksAmount'' (ws @ rest) prev) = JNum 0"
      by (rule booksAmount_nothing_read) (rule parseInt_not_a_number [OF a])
  qed
  have twelve: "get_prop ''booksAmount'' (handleChange ''booksAmount'' ''12'' prev) = JNum 12"
    by (simp add: booksAmount_stored parseInt_12)
  have abc: "get_prop ''booksAmount'' (handleChange ''booksAmount'' ''abc'' prev) = JNum 0"
    by (simp add: booksAmount_stored parseInt_abc)
  have hex: "get_prop ''booksAmount'' (handleChange ''booksAmount'' ''0x1F'' prev) = JNum 31"
    by (simp add: booksAmount_stored parseInt_hex)
  have others: "\<forall>k \<in> set (map fst initialBookState).
      k \<noteq> ''booksAmount'' \<longrightarrow> get_prop k (handleChange k v prev) = JStr v"
    by (simp add: initialBookState_def handleChange_def get_prop_set_prop_same)
  have frame: "\<forall>k k'. k' \<noteq> k \<longrightarrow> get_prop k' (handleChange k v prev) = get_prop k' prev"
    by (simp add: handleChange_def get_prop_set_prop_other)
  show ?thesis
    by (intro conjI)
      (rule booksAmount_stored number numeral exact to_double_rounds to_double_overflows
         sign_only no_digit twelve abc hex others frame)+
qed

theorem handleChange_stores_witness:
  "(0::int) \<le> 42
   \<and> set ''  '' \<subseteq> set [CHR 0x09, CHR 0x0A, CHR 0x0B, CHR 0x0C, CHR 0x0D, CHR 0x20]
   \<and> \<not> radix_digit 10 (hd ''kg'')
   \<and> decimal 42 = ''42''
   \<and> get_prop ''booksAmount'' (handleChange ''booksAmount'' (''  '' @ ''42'' @ ''kg'')
        initialBookState) = JNum 42
   \<and> get_prop ''booksAmount'' (handleChange ''booksAmount'' (''  '' @ ''-'' @ ''42'' @ ''kg'')
        initialBookState) = JNum (- 42)
   \<and> get_prop ''booksAmount'' (handleChange ''booksAmount'' (''  '' @ ''kg'')
        initialBookState) = JNum 0
   \<and> ''title'' \<in> set (map fst initialBookState)
   \<and> ''title'' \<noteq> ''booksAmount''
   \<and> get_prop ''title'' (handleChange ''title'' ''Emma'' initialBookState) = JStr ''Emma''
   \<and> ''author'' \<noteq> ''title''
   \<and> get_prop ''author'' (handleChange ''title'' ''Emma'' initialBookState)
       = get_prop ''author'' initialBookState"
proof -
  have zero: "(0::int) \<le> 42"
    by simp
  have spaces: "set ''  '' \<subseteq> set [CHR 0x09, CHR 0x0A, CHR 0x0B, CHR 0x0C, CHR 0x0D, CHR 0x20]"
    by simp
  have kg: "\<not> radix_digit 10 (hd ''kg'')"
    by (simp add: radix_digit_10)
  have dec: "decimal 42 = ''42''"
    by code_simp
  have double: "to_double 42 = JNum 42" "to_double (- 42) = JNum (- 42)"
    by (simp_all add: to_double_def)
  note stores = handleChange_stores
    [where n = 42 and ws = "''  ''" and rest = "''kg''" and v = "''Emma''"
       and prev = initialBookState]
  from stores have numeral: "(0::int) \<le> 42
      \<and> set ''  '' \<subseteq> set [CHR 0x09, CHR 0x0A, CHR 0x0B, CHR 0x0C, CHR 0x0D, CHR 0x20]
      \<and> (''kg'' = [] \<or> (\<not> radix_digit 10 (hd ''kg'') \<and> hd ''kg'' \<noteq> CHR ''x''
                         \<and> hd ''kg'' \<noteq> CHR ''X'')) \<longrightarrow>
        get_prop ''booksAmount''
          (handleChange ''booksAmount'' (''  '' @ decimal 42 @ ''kg'') initialBookState)
          = to_double 42
      \<and> get_prop ''booksAmount''
          (handleChange ''booksAmount'' (''  '' @ CHR ''+'' # decimal 42 @ ''kg'')
             initialBookState) = to_double 42
      \<and> get_prop ''booksAmount''
          (handleChange ''booksAmount'' (''  '' @ CHR ''-'' # decimal 42 @ ''kg'')
             initialBookState) = to_double (- 42)"
    by (elim conjE)
  with zero spaces kg have plain: "get_prop ''booksAmount''
      (handleChange ''booksAmount'' (''  '' @ ''42'' @ ''kg'') initialBookState) = JNum 42"
    and minus: "get_prop ''booksAmount''
      (handleChange ''booksAmount'' (''  '' @ ''-'' @ ''42'' @ ''kg'') initialBookState)
      = JNum (- 42)"
    by (simp_all add: dec double)
  from stores have "set ''  '' \<subseteq> set [CHR 0x09, CHR 0x0A, CHR 0x0B, CHR 0x0C, CHR 0x0D, CHR 0x20]
      \<and> (''kg'' = [] \<or> (33 \<le> (of_char (hd ''kg'') :: nat)
            \<and> (of_char (hd ''kg'') :: nat) \<le> 126
            \<and> \<not> radix_digit 10 (hd ''kg'') \<and> hd ''kg'' \<noteq> CHR ''+''
            \<and> hd ''kg'' \<noteq> CHR ''-'')) \<longrightarrow>
        get_prop ''booksAmount'' (handleChange ''booksAmount'' (''  '' @ ''kg'')
          initialBookState) = JNum 0"
    by (elim conjE)
  then have no_number: "get_prop ''booksAmount'' (handleChange ''booksAmount'' (''  '' @ ''kg'')
      initialBookState) = JNum 0"
    by (simp add: radix_digit_10)
  have a: "''title'' \<in> set (map fst initialBookState)"
    by (simp add: initialBookState_def)
  have b: "''title'' \<noteq> ''booksAmount''" and c: "''author'' \<noteq> ''title''"
    by simp_all
  from stores have others: "\<forall>k \<in> set (map fst initialBookState).
      k \<noteq> ''booksAmount'' \<longrightarrow> get_prop k (handleChange k ''Emma'' initialBookState) = JStr ''Emma''"
    by (elim conjE)
  from stores have frame: "\<forall>k k'. k' \<noteq> k \<longrightarrow>
      get_prop k' (handleChange k ''Emma'' initialBookState) = get_prop k' initialBookState"
    by (elim conjE)
  from bspec [OF others a] b
  have title: "get_prop ''title'' (handleChange ''title'' ''Emma'' initialBookState) = JStr ''Emma''"
    by (rule mp)
  from frame c
  have author: "get_prop ''author'' (handleChange ''title'' ''Emma'' initialBookState)
      = get_prop ''author'' initialBookState"
    by (elim allE impE)
  show ?thesis
    by (intro conjI) (rule zero spaces kg dec plain minus no_number a b title c author)+
qed

text \<open>
  C10. A change of the input named \<open>sellAmount\<close> stores its text as a string, unparsed:
  the text is stored as it is exactly when the name is neither \<open>booksAmount\<close> nor
  \<open>selAmount\<close>, the only two names whose text is parsed.
\<close>

theorem handleChange_sellAmount_unparsed:
  "get_prop ''sellAmount'' (handleChange ''sellAmount'' v prev) = JStr v
   \<and> (\<forall>k. (get_prop k (handleChange k v prev) = JStr v)
            = (k \<noteq> ''booksAmount'' \<and> k \<noteq> ''selAmount''))"
proof -
  have "js_or (parseInt v) (JNum 0) \<noteq> JStr v"
    using parseInt_cases [of v] by (auto simp: js_or_def)
  then show ?thesis
    by (auto simp: handleChange_def get_prop_set_prop_same)
qed

theorem handleChange_sellAmount_unparsed_witness:
  "get_prop ''sellAmount'' (handleChange ''sellAmount'' ''5'' initialBookState) = JStr ''5''
   \<and> get_prop ''selAmount'' (handleChange ''selAmount'' ''5'' initialBookState) \<noteq> JStr ''5''"
proof -
  note unparsed = handleChange_sellAmount_unparsed [of "''5''" initialBookState]
  from unparsed have sell:
    "get_prop ''sellAmount'' (handleChange ''sellAmount'' ''5'' initialBookState) = JStr ''5''"
    by (rule conjunct1)
  from unparsed have "(get_prop ''selAmount'' (handleChange ''selAmount'' ''5'' initialBookState)
      = JStr ''5'') = (''selAmount'' \<noteq> ''booksAmount'' \<and> ''selAmount'' \<noteq> ''selAmount'')"
    by (elim conjE allE)
  then have sel:
    "get_prop ''selAmount'' (handleChange ''selAmount'' ''5'' initialBookState) \<noteq> JStr ''5''"
    by simp
  show ?thesis
    by (intro conjI) (rule sell sel)+
qed

section \<open>The book form: the payload\<close>

lemma foldl_formdata_append:
  "foldl (\<lambda>fd (key, value). formdata_append fd key (f value)) acc obj
     = acc @ map (\<lambda>(key, value). (key, f value)) obj"
  by (induction obj arbitrary: acc) (auto simp: formdata_append_def)

lemma submit_formData_eq:
  "submit_formData b t
     = map (\<lambda>(key, value). (key, Text (if truthy value then toString value else ''''))) b
       @ (case t of Some file \<Rightarrow> [(''thumbnail'', Blob file)] | None \<Rightarrow> [])"
proof -
  have "foldl (\<lambda>fd (key, value).
                 formdata_append fd key (Text (if truthy value then toString value else '''')))
          [] b
        = map (\<lambda>(key, value). (key, Text (if truthy value then toString value else ''''))) b"
    using foldl_formdata_append
      [of "\<lambda>value. Text (if truthy value then toString value else '''')" "[]" b]
    by simp
  then show ?thesis
    unfolding submit_formData_def Let_def
    by (cases t) (simp_all add: formdata_append_def)
qed

lemma number_toString_examples:
  "number_toString 3 = ''3''"
  "number_toString 9007199254740992 = ''9007199254740992''"
  "number_toString 590295810358705651712 = ''590295810358705700000''"
  "number_toString 1000000000000000000000 = ''1e+21''"
  "number_toString (- 1180591620717411303424) = ''-1.1805916207174113e+21''"
  by code_simp+

text \<open>
  C9. The payload has one text entry per property of the book, in order, under the
  property's name: the string form of its value, or the empty string when the value is
  falsy (so a quantity of 0 is sent as the empty string). After these comes one entry
  named \<open>thumbnail\<close> holding the chosen file when there is one, and nothing otherwise.
  The string form of a number is what the language prints: all its digits for 3 and for
  \<open>2^53\<close>, seventeen digits and zeros for \<open>2^69\<close>, \<open>1e+21\<close> for \<open>10^21\<close>, and
  \<open>Infinity\<close> for an infinity.
\<close>

theorem submit_formData_entries:
  "submit_formData b t
     = map (\<lambda>(key, value). (key, Text (if truthy value then toString value else ''''))) b
       @ (case t of Some file \<Rightarrow> [(''thumbnail'', Blob file)] | None \<Rightarrow> [])
   \<and> length (submit_formData b t) = length b + (if t = None then 0 else 1)
   \<and> map fst (take (length b) (submit_formData b t)) = map fst b
   \<and> submit_formData [(''booksAmount'', JNum 0)] None = [(''booksAmount'', Text '''')]
   \<and> submit_formData
         [(''a'', JNum 3), (''b'', JNum 9007199254740992), (''c'', JNum 590295810358705651712),
          (''d'', JNum 1000000000000000000000), (''e'', JNum (- 1180591620717411303424)),
          (''f'', JInfinity)] None
       = [(''a'', Text ''3''), (''b'', Text ''9007199254740992''),
          (''c'', Text ''590295810358705700000''), (''d'', Text ''1e+21''),
          (''e'', Text ''-1.1805916207174113e+21''), (''f'', Text ''Infinity'')]"
proof -
  have len: "length (submit_formData b t) = length b + (if t = None then 0 else 1)"
    by (simp add: submit_formData_eq split: option.split)
  have keys: "map fst (take (length b) (submit_formData b t)) = map fst b"
    by (simp add: submit_formData_eq case_prod_unfold comp_def)
  have zero: "submit_formData [(''booksAmount'', JNum 0)] None = [(''booksAmount'', Text '''')]"
    by (simp add: submit_formData_eq)
  have numbers: "submit_formData
         [(''a'', JNum 3), (''b'', JNum 9007199254740992), (''c'', JNum 590295810358705651712),
          (''d'', JNum 1000000000000000000000), (''e'', JNum (- 1180591620717411303424)),
          (''f'', JInfinity)] None
       = [(''a'', Text ''3''), (''b'', Text ''9007199254740992''),
          (''c'', Text ''590295810358705700000''), (''d'', Text ''1e+21''),
          (''e'', Text ''-1.1805916207174113e+21''), (''f'', Text ''Infinity'')]"
    by (simp add: submit_formData_eq number_toString_examples)
  show ?thesis
    by (intro conjI) (rule submit_formData_eq len keys zero numbers)+
qed

theorem submit_formData_entries_witness:
  "submit_formData [(''title'', JStr ''Emma''), (''booksAmount'', JNum 0), (''sellAmount'', JNum 3)]
     (Some (File ''cover.png''))
   = [(''title'', Text ''Emma''), (''booksAmount'', Text ''''), (''sellAmount'', Text ''3''),
      (''thumbnail'', Blob (File ''cover.png''))]"
  using submit_formData_entries
      [of "[(''title'', JStr ''Emma''), (''booksAmount'', JNum 0), (''sellAmount'', JNum 3)]"
          "Some (File ''cover.png'')"]
  by (simp add: number_toString_examples)

section \<open>The list component: refresh\<close>

lemma getBooks_Rejected:
  "getBooks api (Rejected e) c
     = c\<lparr>loading := False,
          fetched := fetched c @ [getBooks_request api c],
          console := console c @ [(''Error fetching books:'', e)]\<rparr>"
  by (simp add: getBooks_def getBooks_try_def)

lemma getBooks_not_ok:
  "\<not> ok res \<Longrightarrow>
   getBooks api (Resolved res) c
     = c\<lparr>loading := False,
          fetched := fetched c @ [getBooks_request api c],
          console := console c @ [(''Error fetching books:'', Error ''Failed to fetch books'')]\<rparr>"
  by (simp add: getBooks_def getBooks_try_def)

lemma getBooks_bad_json:
  "ok res \<Longrightarrow> json res = Rejected e \<Longrightarrow>
   getBooks api (Resolved res) c
     = c\<lparr>loading := False,
          fetched := fetched c @ [getBooks_request api c],
          console := console c @ [(''Error fetching books:'', e)]\<rparr>"
  by (simp add: getBooks_def getBooks_try_def)

lemma getBooks_ok:
  "ok res \<Longrightarrow> json res = Resolved result \<Longrightarrow>
   getBooks api (Resolved res) c
     = c\<lparr>data := Some result, loading := False,
          fetched := fetched c @ [getBooks_request api c]\<rparr>"
  by (simp add: getBooks_def getBooks_try_def)

lemma getBooks_loading: "loading (getBooks api outcome c) = False"
proof (cases outcome)
  case (Rejected e)
  then show ?thesis
    by (simp add: getBooks_Rejected)
next
  case (Resolved res)
  then show ?thesis
    by (cases "ok res"; cases "json res")
      (simp_all add: getBooks_not_ok getBooks_bad_json getBooks_ok)
qed

lemma getBooks_fetched:
  "fetched (getBooks api outcome c) = fetched c @ [getBooks_request api c]"
proof (cases outcome)
  case (Rejected e)
  then show ?thesis
    by (simp add: getBooks_Rejected)
next
  case (Resolved res)
  then show ?thesis
    by (cases "ok res"; cases "json res")
      (simp_all add: getBooks_not_ok getBooks_bad_json getBooks_ok)
qed

text \<open>
  C6. When the list request fails, by a network error or by a response that is not ok,
  \<open>getBooks\<close> leaves the stored page result as it was: it only records the request,
  logs the failure to the console and clears the loading flag. When the request
  succeeds, the stored page result becomes the response body. The loading flag is
  cleared in every case.
\<close>

theorem getBooks_settles:
  "getBooks api (Rejected e) c
     = c\<lparr>loading := False,
          fetched := fetched c @ [getBooks_request api c],
          console := console c @ [(''Error fetching books:'', e)]\<rparr>
   \<and> data (getBooks api (Rejected e) c) = data c
   \<and> (\<not> ok res \<longrightarrow>
        getBooks api (Resolved res) c
          = c\<lparr>loading := False,
               fetched := fetched c @ [getBooks_request api c],
               console := console c
                 @ [(''Error fetching books:'', Error ''Failed to fetch books'')]\<rparr>
        \<and> data (getBooks api (Resolved res) c) = data c)
   \<and> (ok res \<and> json res = Resolved result \<longrightarrow>
        data (getBooks api (Resolved res) c) = Some result)
   \<and> loading (getBooks api outcome c) = False"
proof -
  have rejected: "data (getBooks api (Rejected e) c) = data c"
    by (simp add: getBooks_Rejected)
  have not_ok: "\<not> ok res \<longrightarrow>
        getBooks api (Resolved res) c
          = c\<lparr>loading := False,
               fetched := fetched c @ [getBooks_request api c],
               console := console c
                 @ [(''Error fetching books:'', Error ''Failed to fetch books'')]\<rparr>
        \<and> data (getBooks api (Resolved res) c) = data c"
    by (simp add: getBooks_not_ok)
  have success: "ok res \<and> json res = Resolved result \<longrightarrow>
        data (getBooks api (Resolved res) c) = Some result"
    by (simp add: getBooks_ok)
  show ?thesis
    by (intro conjI) (rule getBooks_Rejected rejected not_ok success getBooks_loading)+
qed

theorem getBooks_settles_witness:
  "\<not> ok \<lparr>ok = False, json = Rejected NotAnError\<rparr>
   \<and> data (getBooks ''/api'' (Resolved \<lparr>ok = False, json = Rejected NotAnError\<rparr>)
         BooksClient_initial) = None
   \<and> ok \<lparr>ok = True, json = Resolved
           \<lparr>list = [], responseMessage = ''none'', totalPages = 0, responseCode = 200\<rparr>\<rparr>
   \<and> data (getBooks ''/api''
         (Resolved \<lparr>ok = True, json = Resolved
           \<lparr>list = [], responseMessage = ''none'', totalPages = 0, responseCode = 200\<rparr>\<rparr>)
         BooksClient_initial)
       = Some \<lparr>list = [], responseMessage = ''none'', totalPages = 0, responseCode = 200\<rparr>"
proof -
  have none: "data BooksClient_initial = None"
    by (simp add: BooksClient_initial_def)
  have failure: "data (getBooks ''/api'' (Resolved \<lparr>ok = False, json = Rejected NotAnError\<rparr>)
         BooksClient_initial) = None"
    using getBooks_settles
      [where res = "\<lparr>ok = False, json = Rejected NotAnError\<rparr>" and c = BooksClient_initial
         and api = "''/api''"]
    by (simp add: none)
  have success: "data (getBooks ''/api''
         (Resolved \<lparr>ok = True, json = Resolved
           \<lparr>list = [], responseMessage = ''none'', totalPages = 0, responseCode = 200\<rparr>\<rparr>)
         BooksClient_initial)
       = Some \<lparr>list = [], responseMessage = ''none'', totalPages = 0, responseCode = 200\<rparr>"
    using getBooks_settles
      [where res = "\<lparr>ok = True, json = Resolved
           \<lparr>list = [], responseMessage = ''none'', totalPages = 0, responseCode = 200\<rparr>\<rparr>"
         and c = BooksClient_initial and api = "''/api''"
         and result = "\<lparr>list = [], responseMessage = ''none'', totalPages = 0,
           responseCode = 200\<rparr>"]
    by simp
  show ?thesis
    using failure success by simp
qed

section \<open>The list component: save\<close>

lemma handleSaveBook_Rejected:
  "handleSaveBook api g (Rejected e) refresh book formData c
     = (Some e,
        c\<lparr>fetched := fetched c @ [handleSaveBook_request api book formData],
           console := console c @ [(''Error saving book:'', e)]\<rparr>)"
  by (simp add: handleSaveBook_def handleSaveBook_try_def)

lemma handleSaveBook_bad_json:
  "\<not> ok res \<Longrightarrow> json res = Rejected e \<Longrightarrow>
   handleSaveBook api g (Resolved res) refresh book formData c
     = (Some e,
        c\<lparr>fetched := fetched c @ [handleSaveBook_request api book formData],
           console := console c @ [(''Error saving book:'', e)]\<rparr>)"
  by (simp add: handleSaveBook_def handleSaveBook_try_def)

lemma handleSaveBook_not_ok:
  "\<not> ok res \<Longrightarrow> json res = Resolved errorData \<Longrightarrow>
   handleSaveBook api g (Resolved res) refresh book formData c
     = (Some (save_error g errorData),
        c\<lparr>fetched := fetched c @ [handleSaveBook_request api book formData],
           console := console c @ [(''Error saving book:'', save_error g errorData)]\<rparr>)"
  by (simp add: handleSaveBook_def handleSaveBook_try_def)

lemma handleSaveBook_ok:
  "ok res \<Longrightarrow>
   handleSaveBook api g (Resolved res) refresh book formData c
     = (None,
        getBooks api refresh
          (c\<lparr>fetched := fetched c @ [handleSaveBook_request api book formData]\<rparr>))"
  by (simp add: handleSaveBook_def handleSaveBook_try_def)

lemma handleSaveBook_first_request:
  "fetched (snd (handleSaveBook api g save refresh book formData c)) ! length (fetched c)
     = handleSaveBook_request api book formData"
proof (cases save)
  case (Rejected e)
  then show ?thesis
    by (simp add: handleSaveBook_Rejected)
next
  case (Resolved res)
  show ?thesis
  proof (cases "ok res")
    case True
    then show ?thesis
      by (simp add: Resolved handleSaveBook_ok getBooks_fetched nth_append)
  next
    case False
    then show ?thesis
      by (cases "json res") (simp_all add: Resolved handleSaveBook_bad_json handleSaveBook_not_ok)
  qed
qed

text \<open>
  C4. For a book whose \<open>id\<close> is a string, \<open>handleSaveBook\<close> sends one save request: when
  the id is empty, a POST to the collection \<open>/books\<close>; when it is not, a PUT to
  \<open>/books/{id}\<close>. In both cases the body is the payload it was given. This request is
  the first one it sends.
\<close>

theorem handleSaveBook_sends:
  assumes "get_prop ''id'' book = JStr i"
  shows "(i = [] \<longrightarrow>
            handleSaveBook_request api book formData
              = \<lparr>method' = POST, url = api @ ''/books'', headers = [], body = Some formData\<rparr>)
       \<and> (i \<noteq> [] \<longrightarrow>
            handleSaveBook_request api book formData
              = \<lparr>method' = PUT, url = api @ ''/books/'' @ i, headers = [],
                 body = Some formData\<rparr>)
       \<and> fetched (snd (handleSaveBook api g save refresh book formData c)) ! length (fetched c)
            = handleSaveBook_request api book formData"
proof -
  have create: "i = [] \<longrightarrow>
            handleSaveBook_request api book formData
              = \<lparr>method' = POST, url = api @ ''/books'', headers = [], body = Some formData\<rparr>"
    using assms by (simp add: handleSaveBook_request_def)
  have update: "i \<noteq> [] \<longrightarrow>
            handleSaveBook_request api book formData
              = \<lparr>method' = PUT, url = api @ ''/books/'' @ i, headers = [],
                 body = Some formData\<rparr>"
    using assms by (simp add: handleSaveBook_request_def)
  show ?thesis
    by (intro conjI) (rule create update handleSaveBook_first_request)+
qed

theorem handleSaveBook_sends_witness:
  "get_prop ''id'' initialBookState = JStr ''''
   \<and> handleSaveBook_request ''/api'' initialBookState []
       = \<lparr>method' = POST, url = ''/api/books'', headers = [], body = Some []\<rparr>
   \<and> get_prop ''id'' [(''id'', JStr ''42''), (''title'', JStr ''Emma'')] = JStr ''42''
   \<and> handleSaveBook_request ''/api'' [(''id'', JStr ''42''), (''title'', JStr ''Emma'')] []
       = \<lparr>method' = PUT, url = ''/api/books/42'', headers = [], body = Some []\<rparr>"
proof -
  have new: "get_prop ''id'' initialBookState = JStr ''''"
    by (simp add: get_prop_def initialBookState_def)
  have old: "get_prop ''id'' [(''id'', JStr ''42''), (''title'', JStr ''Emma'')] = JStr ''42''"
    by (simp add: get_prop_def)
  have post: "handleSaveBook_request ''/api'' initialBookState []
       = \<lparr>method' = POST, url = ''/api/books'', headers = [], body = Some []\<rparr>"
    using handleSaveBook_sends [OF new, where api = "''/api''" and formData = "[]"] by simp
  have put: "handleSaveBook_request ''/api'' [(''id'', JStr ''42''), (''title'', JStr ''Emma'')] []
       = \<lparr>method' = PUT, url = ''/api/books/42'', headers = [], body = Some []\<rparr>"
    using handleSaveBook_sends [OF old, where api = "''/api''" and formData = "[]"] by simp
  show ?thesis
    by (intro conjI) (rule new old post put)+
qed

section \<open>The book form: submitting\<close>






















section \<open>The book form: opening\<close>

lemma getBookDetail_no_thumbnail:
  "\<forall>call \<in> set (getBookDetail api i outcome). \<not> sets_thumbnail call"
proof (cases outcome)
  case (Rejected e)
  then show ?thesis
    by (simp add: getBookDetail_def)
next
  case (Resolved res)
  then show ?thesis
    by (cases "ok res"; cases "json res") (simp_all add: getBookDetail_def)
qed

lemma getBookDetail_loaded:
  "ok res \<Longrightarrow> json res = Resolved obj \<Longrightarrow>
   getBookDetail api i (Resolved res)
     = [SetLoading True,
        Fetch \<lparr>method' = GET, url = api @ ''/books/'' @ i, headers = json_headers,
               body = None\<rparr>,
        SetBookData obj,
        SetLoading False]"
  by (simp add: getBookDetail_def)

lemma thumbnail_foldl_kept:
  "\<forall>call \<in> set calls. \<not> sets_thumbnail call \<Longrightarrow>
   thumbnail (foldl modal_call_apply m calls) = thumbnail m"
proof (induction calls arbitrary: m)
  case Nil
  then show ?case by simp
next
  case (Cons call calls)
  then show ?case
    by (cases call) simp_all
qed

lemma useEffect_runs:
  "previous \<noteq> Some (bookId, isOpen) \<Longrightarrow>
   useEffect api previous bookId isOpen outcome
     = SetThumbnail None
       # (case bookId of
            Some i \<Rightarrow> if i \<noteq> [] then getBookDetail api i outcome
                      else [SetBookData initialBookState]
          | None \<Rightarrow> [SetBookData initialBookState])"
  by (simp add: useEffect_def useEffect_body_def)

lemma opening_changes_props:
  "\<not> isModalOpen c \<Longrightarrow>
   Some (BookModal_props c) \<noteq> Some (Some (selectedBook (handleEditBook i c)), True)
   \<and> Some (BookModal_props c) \<noteq> Some (Some (selectedBook (handleAddBook c)), True)
   \<and> isModalOpen (handleEditBook i c) \<and> isModalOpen (handleAddBook c)"
  by (simp add: BookModal_props_def handleEditBook_def handleAddBook_def)

text \<open>
  C8. Whenever the form is rendered open with dependencies that differ from the previous
  render's (it was closed, or it was open for another id, or it has just mounted), the
  effect runs, and its first call resets the pending thumbnail to none. No later call of
  the effect sets the thumbnail, so it is none once the calls have been applied. The
  calls that follow are those of the detail fetch when the id is present (they end with
  the book set to the fetched record when the fetch succeeds), and the single call that
  sets the book to the blank template when the id is absent or empty.
\<close>

theorem useEffect_resets_thumbnail_first:
  assumes "previous \<noteq> Some (bookId, True)"
  shows "take 1 (useEffect api previous bookId True outcome) = [SetThumbnail None]
       \<and> (\<forall>call \<in> set (drop 1 (useEffect api previous bookId True outcome)).
             \<not> sets_thumbnail call)
       \<and> thumbnail (run_calls m (useEffect api previous bookId True outcome)) = None
       \<and> (bookId = None \<or> bookId = Some [] \<longrightarrow>
             drop 1 (useEffect api previous bookId True outcome)
               = [SetBookData initialBookState]
             \<and> bookData (run_calls m (useEffect api previous bookId True outcome))
                 = initialBookState)
       \<and> (bookId = Some i \<and> i \<noteq> [] \<longrightarrow>
             drop 1 (useEffect api previous bookId True outcome)
               = getBookDetail api i outcome)
       \<and> (bookId = Some i \<and> i \<noteq> [] \<and> outcome = Resolved res \<and> ok res
             \<and> json res = Resolved obj \<longrightarrow>
             bookData (run_calls m (useEffect api previous bookId True outcome)) = obj)"
proof -
  define rest where "rest =
    (case bookId of
       Some i \<Rightarrow> if i \<noteq> [] then getBookDetail api i outcome
                 else [SetBookData initialBookState]
     | None \<Rightarrow> [SetBookData initialBookState])"
  have calls: "useEffect api previous bookId True outcome = SetThumbnail None # rest"
    unfolding rest_def using assms by (rule useEffect_runs)
  have no_setter: "\<forall>call \<in> set rest. \<not> sets_thumbnail call"
    unfolding rest_def using getBookDetail_no_thumbnail
    by (simp split: option.split)
  have first: "take 1 (useEffect api previous bookId True outcome) = [SetThumbnail None]"
    by (simp add: calls)
  have later: "\<forall>call \<in> set (drop 1 (useEffect api previous bookId True outcome)).
      \<not> sets_thumbnail call"
    using no_setter by (simp add: calls)
  have reset: "thumbnail (run_calls m (useEffect api previous bookId True outcome)) = None"
    using thumbnail_foldl_kept [OF no_setter, of "m\<lparr>thumbnail := None\<rparr>"]
    by (simp add: calls run_calls_def)
  have blank: "bookId = None \<or> bookId = Some [] \<longrightarrow>
      drop 1 (useEffect api previous bookId True outcome) = [SetBookData initialBookState]
      \<and> bookData (run_calls m (useEffect api previous bookId True outcome))
          = initialBookState"
    unfolding calls by (auto simp: rest_def run_calls_def)
  have detail: "bookId = Some i \<and> i \<noteq> [] \<longrightarrow>
      drop 1 (useEffect api previous bookId True outcome) = getBookDetail api i outcome"
    unfolding calls by (simp add: rest_def)
  have loaded: "bookId = Some i \<and> i \<noteq> [] \<and> outcome = Resolved res \<and> ok res
      \<and> json res = Resolved obj \<longrightarrow>
      bookData (run_calls m (useEffect api previous bookId True outcome)) = obj"
    unfolding calls by (simp add: rest_def run_calls_def getBookDetail_loaded)
  show ?thesis
    by (intro conjI) (rule first later reset blank detail loaded)+
qed

theorem useEffect_resets_thumbnail_first_witness:
  "\<not> isModalOpen BooksClient_initial
   \<and> Some (BookModal_props BooksClient_initial)
       \<noteq> Some (Some (selectedBook (handleEditBook ''8'' BooksClient_initial)), True)
   \<and> take 1 (useEffect ''/api'' (Some (BookModal_props BooksClient_initial))
        (Some (selectedBook (handleEditBook ''8'' BooksClient_initial))) True
        (Resolved \<lparr>ok = True, json = Resolved [(''id'', JStr ''8'')]\<rparr>))
       = [SetThumbnail None]
   \<and> thumbnail (run_calls (BookModal_initial\<lparr>thumbnail := Some (File ''old.png'')\<rparr>)
        (useEffect ''/api'' (Some (BookModal_props BooksClient_initial))
          (Some (selectedBook (handleEditBook ''8'' BooksClient_initial))) True
          (Resolved \<lparr>ok = True, json = Resolved [(''id'', JStr ''8'')]\<rparr>))) = None
   \<and> bookData (run_calls (BookModal_initial\<lparr>thumbnail := Some (File ''old.png'')\<rparr>)
        (useEffect ''/api'' (Some (BookModal_props BooksClient_initial))
          (Some (selectedBook (handleEditBook ''8'' BooksClient_initial))) True
          (Resolved \<lparr>ok = True, json = Resolved [(''id'', JStr ''8'')]\<rparr>)))
       = [(''id'', JStr ''8'')]"
proof -
  have closed: "\<not> isModalOpen BooksClient_initial"
    by (simp add: BooksClient_initial_def)
  from opening_changes_props [OF closed, of "''8''"]
  have changed: "Some (BookModal_props BooksClient_initial)
       \<noteq> Some (Some (selectedBook (handleEditBook ''8'' BooksClient_initial)), True)"
    by (rule conjunct1)
  have eight: "selectedBook (handleEditBook ''8'' BooksClient_initial) = ''8''"
    by (simp add: handleEditBook_def)
  show ?thesis
    using closed changed useEffect_resets_thumbnail_first
      [OF changed, where api = "''/api''"
         and outcome = "Resolved \<lparr>ok = True, json = Resolved [(''id'', JStr ''8'')]\<rparr>"
         and res = "\<lparr>ok = True, json = Resolved [(''id'', JStr ''8'')]\<rparr>"
         and obj = "[(''id'', JStr ''8'')]" and i = "''8''"
         and m = "BookModal_initial\<lparr>thumbnail := Some (File ''old.png'')\<rparr>"]
    by (simp add: eight)
qed
end
